theory Spec2Isabelle
  imports Complex_Main "HOL-Library.Word" "HOL-Library.Multiset"
begin

unbundle bit_operations_syntax

section \<open>Floating-point values\<close>

text \<open>
  The client computes with C++ \<open>double\<close> and \<open>float\<close>. A value is a NaN, an infinity or a
  finite rational. The special-value rules of IEEE 754 arithmetic are written out; the
  rounding of a finite exact result to the target format is a parameter (\<open>rnd_double\<close>,
  \<open>rnd_float\<close>), which may overflow to an infinity but never yields a NaN. The sign of
  zero is not distinguished: no operation of the client observes it (the only division is
  by the constant 10400). \<open>Inf True\<close> is minus infinity.
\<close>

datatype num = Inf bool | Fin rat

datatype fp = NaN | Num num

text \<open>
  The platform: the two rounding functions, the conversion of a \<open>double\<close> to \<open>time_t\<close>,
  and the \<open>std::cos\<close> and \<open>std::sin\<close> of the C library.
\<close>

record fp_env =
  rnd_double :: "rat \<Rightarrow> num"
  rnd_float :: "rat \<Rightarrow> num"
  to_time_t :: "fp \<Rightarrow> 64 word"
  std_cos :: "fp \<Rightarrow> fp"
  std_sin :: "fp \<Rightarrow> fp"

definition fp_of_int :: "int \<Rightarrow> fp" where
  \<comment> \<open>conversion of an integer below \<open>2 ^ 53\<close> in magnitude: exact\<close>
  "fp_of_int n = Num (Fin (of_int n))"

definition fp_isnan :: "fp \<Rightarrow> bool" where
  "fp_isnan v = (v = NaN)"

fun fp_neg :: "fp \<Rightarrow> fp" where
  "fp_neg NaN = NaN"
| "fp_neg (Num (Inf s)) = Num (Inf (\<not> s))"
| "fp_neg (Num (Fin a)) = Num (Fin (- a))"

fun fp_mul :: "(rat \<Rightarrow> num) \<Rightarrow> fp \<Rightarrow> fp \<Rightarrow> fp" where
  "fp_mul r (Num (Fin a)) (Num (Fin b)) = Num (r (a * b))"
| "fp_mul r (Num (Inf s)) (Num (Fin b)) = (if b = 0 then NaN else Num (Inf (s \<noteq> (b < 0))))"
| "fp_mul r (Num (Fin a)) (Num (Inf t)) = (if a = 0 then NaN else Num (Inf ((a < 0) \<noteq> t)))"
| "fp_mul r (Num (Inf s)) (Num (Inf t)) = Num (Inf (s \<noteq> t))"
| "fp_mul r NaN _ = NaN"
| "fp_mul r _ NaN = NaN"

fun fp_add :: "(rat \<Rightarrow> num) \<Rightarrow> fp \<Rightarrow> fp \<Rightarrow> fp" where
  "fp_add r (Num (Fin a)) (Num (Fin b)) = Num (r (a + b))"
| "fp_add r (Num (Inf s)) (Num (Fin b)) = Num (Inf s)"
| "fp_add r (Num (Fin a)) (Num (Inf t)) = Num (Inf t)"
| "fp_add r (Num (Inf s)) (Num (Inf t)) = (if s = t then Num (Inf s) else NaN)"
| "fp_add r NaN _ = NaN"
| "fp_add r _ NaN = NaN"

definition fp_sub :: "(rat \<Rightarrow> num) \<Rightarrow> fp \<Rightarrow> fp \<Rightarrow> fp" where
  "fp_sub r a b = fp_add r a (fp_neg b)"

fun fp_div :: "(rat \<Rightarrow> num) \<Rightarrow> fp \<Rightarrow> fp \<Rightarrow> fp" where
  "fp_div r (Num (Fin a)) (Num (Fin b)) =
     (if b = 0 then (if a = 0 then NaN else Num (Inf (a < 0))) else Num (r (a / b)))"
| "fp_div r (Num (Inf s)) (Num (Fin b)) = Num (Inf (s \<noteq> (b < 0)))"
| "fp_div r (Num (Fin a)) (Num (Inf t)) = Num (Fin 0)"
| "fp_div r (Num (Inf s)) (Num (Inf t)) = NaN"
| "fp_div r NaN _ = NaN"
| "fp_div r _ NaN = NaN"

fun fp_less :: "fp \<Rightarrow> fp \<Rightarrow> bool" where
  \<comment> \<open>the operator \<open><\<close>: false as soon as one side is a NaN\<close>
  "fp_less (Num (Fin a)) (Num (Fin b)) = (a < b)"
| "fp_less (Num (Inf s)) (Num (Fin b)) = s"
| "fp_less (Num (Fin a)) (Num (Inf t)) = (\<not> t)"
| "fp_less (Num (Inf s)) (Num (Inf t)) = (s \<and> \<not> t)"
| "fp_less NaN _ = False"
| "fp_less _ NaN = False"

fun to_float :: "fp_env \<Rightarrow> fp \<Rightarrow> fp" where
  \<comment> \<open>\<open>static_cast<float>\<close> of a \<open>double\<close>; the way back is exact\<close>
  "to_float E NaN = NaN"
| "to_float E (Num (Inf s)) = Num (Inf s)"
| "to_float E (Num (Fin a)) = Num (rnd_float E a)"

section \<open>Points and point clouds\<close>

text \<open>
  \<open>pcl::PointXYZI\<close> and \<open>pcl::PointCloud<pcl::PointXYZI>\<close> belong to the Point Cloud
  Library. The model keeps the fields the client reads or writes and follows the
  library's documented behaviour: a default-constructed cloud is empty, of width and
  height 0, dense, with a zero header; \<open>push_back\<close> appends the point, sets the width to
  the new size and the height to 1.
\<close>

record PointXYZI =
  pt_x :: fp
  pt_y :: fp
  pt_z :: fp
  pt_intensity :: fp

definition new_PointXYZI :: PointXYZI where
  "new_PointXYZI = \<lparr>pt_x = Num (Fin 0), pt_y = Num (Fin 0), pt_z = Num (Fin 0), pt_intensity = Num (Fin 0)\<rparr>"

record PointCloud =
  header_stamp :: "64 word"
  header_seq :: "32 word"
  points :: "PointXYZI list"
  width :: "32 word"
  height :: "32 word"
  is_dense :: bool

definition new_PointCloud :: PointCloud where
  "new_PointCloud =
     \<lparr>header_stamp = 0, header_seq = 0, points = [], width = 0, height = 0, is_dense = True\<rparr>"

definition push_back :: "PointXYZI \<Rightarrow> PointCloud \<Rightarrow> PointCloud" where
  "push_back p c =
     c\<lparr>points := points c @ [p], width := of_nat (Suc (length (points c))), height := 1\<rparr>"

datatype error =
    PointIndexOutOfRange nat  \<comment> \<open>\<open>std::out_of_range\<close> thrown by \<open>PointCloud::at\<close>\<close>
  | TableReadOutOfBounds nat  \<comment> \<open>unchecked \<open>operator[]\<close> past the end of a lookup table\<close>

definition cloud_at :: "PointCloud \<Rightarrow> nat \<Rightarrow> error + PointXYZI" where
  "cloud_at c n = (if n < length (points c) then Inr (points c ! n) else Inl (PointIndexOutOfRange n))"

section \<open>Constants of the client\<close>

definition M8_NUM_ROT_ANGLES :: int where "M8_NUM_ROT_ANGLES = 10400"
definition M8_FIRING_PER_PKT :: int where "M8_FIRING_PER_PKT = 50"
definition M8_PACKET_BYTES :: int where "M8_PACKET_BYTES = 6612"
definition M8_NUM_RETURNS :: int where "M8_NUM_RETURNS = 3"
definition M8_NUM_LASERS :: int where "M8_NUM_LASERS = 8"

section \<open>organizeCloud\<close>

text \<open>
  The inner loop of \<open>organizeCloud\<close> for the ring \<open>i\<close>: \<open>j\<close> runs over \<open>js\<close>;
  \<open>temp_index\<close> is an \<open>unsigned int\<close> and wraps at \<open>2 ^ 32\<close>.
\<close>

fun organize_ring :: "PointCloud \<Rightarrow> int \<Rightarrow> nat list \<Rightarrow> PointCloud \<Rightarrow> error + PointCloud" where
  "organize_ring cur i [] temp = Inr temp"
| "organize_ring cur i (j # js) temp =
     (let temp_index = (of_nat j * word_of_int M8_NUM_LASERS :: 32 word);
          temp_index = (if M8_NUM_LASERS = 8 then temp_index + word_of_int i else temp_index)
      in case cloud_at cur (unat temp_index) of
           Inl e \<Rightarrow> Inl e
         | Inr p \<Rightarrow> organize_ring cur i js (push_back p temp))"

text \<open>The outer loop: \<open>i\<close> runs over \<open>is\<close>, from the top ring down.\<close>

fun organize_rings :: "PointCloud \<Rightarrow> 32 word \<Rightarrow> int list \<Rightarrow> PointCloud \<Rightarrow> error + PointCloud" where
  "organize_rings cur w [] temp = Inr temp"
| "organize_rings cur w (i # is) temp =
     (case organize_ring cur i [0..<unat w] temp of
        Inl e \<Rightarrow> Inl e
      | Inr temp' \<Rightarrow> organize_rings cur w is temp')"

definition organizeCloud :: "PointCloud \<Rightarrow> error + PointCloud" where
  "organizeCloud current_xyzi =
     (let temp_xyzi = new_PointCloud;
          w = (of_nat (length (points current_xyzi) div nat M8_NUM_LASERS) :: 32 word)
      in case organize_rings current_xyzi w (rev [0..M8_NUM_LASERS - 1]) temp_xyzi of
           Inl e \<Rightarrow> Inl e
         | Inr temp \<Rightarrow> Inr (temp\<lparr>height := word_of_int M8_NUM_LASERS, width := w\<rparr>))"

section \<open>computeXYZ\<close>

text \<open>
  The fields \<open>x\<close>, \<open>y\<close>, \<open>z\<close> and \<open>intensity\<close> of a point are \<open>pt_x\<close>, \<open>pt_y\<close>,
  \<open>pt_z\<close> and \<open>pt_intensity\<close>; the parameter \<open>range\<close> is \<open>rng\<close>.
\<close>

definition computeXYZ :: "fp_env \<Rightarrow> fp \<Rightarrow> fp \<Rightarrow> fp \<Rightarrow> fp \<Rightarrow> fp \<Rightarrow> PointXYZI \<Rightarrow> PointXYZI" where
  "computeXYZ E rng cos_hz_angle sin_hz_angle cos_vt_angle sin_vt_angle point =
     (if fp_isnan rng then point\<lparr>pt_x := NaN, pt_y := NaN, pt_z := NaN\<rparr>
      else
        let xy_distance = fp_sub (rnd_double E) (fp_mul (rnd_double E) rng cos_vt_angle) sin_vt_angle;
            point = point\<lparr>pt_y := to_float E (fp_mul (rnd_double E) xy_distance sin_hz_angle)\<rparr>;
            point = point\<lparr>pt_x := to_float E (fp_mul (rnd_double E) xy_distance cos_hz_angle)\<rparr>;
            point = point\<lparr>pt_z := to_float E (fp_add (rnd_double E) (fp_mul (rnd_double E) rng sin_vt_angle) cos_vt_angle)\<rparr>
        in point)"

section \<open>Wire format\<close>

type_synonym byte = "8 word"

record M8FiringData =
  position :: "16 word"
  padding :: "16 word"
  returns_distances :: "32 word list list"
  returns_intensities :: "byte list list"
  returns_status :: "byte list"

record M8DataPacket =
  data :: "M8FiringData list"
  seconds :: "32 word"
  nanoseconds :: "32 word"
  status :: "32 word"

text \<open>
  \<open>processM8Packets\<close> reinterprets a buffer as an \<open>M8DataPacket\<close>. On a little-endian
  host the struct is laid out without gaps: a firing is 132 bytes (position at 0, padding
  at 2, the distances at 4, the intensities at 100, the status bytes at 124), the packet is
  50 firings and three 32-bit words at 6600.
\<close>

definition le16 :: "byte list \<Rightarrow> nat \<Rightarrow> 16 word" where
  "le16 bs k = ucast (bs ! k) OR push_bit 8 (ucast (bs ! (k + 1)))"

definition le32 :: "byte list \<Rightarrow> nat \<Rightarrow> 32 word" where
  "le32 bs k = ucast (bs ! k) OR push_bit 8 (ucast (bs ! (k + 1)))
                 OR push_bit 16 (ucast (bs ! (k + 2))) OR push_bit 24 (ucast (bs ! (k + 3)))"

definition firing_at :: "byte list \<Rightarrow> nat \<Rightarrow> M8FiringData" where
  "firing_at bs k =
     \<lparr>position = le16 bs k,
      padding = le16 bs (k + 2),
      returns_distances =
        map (\<lambda>r. map (\<lambda>l. le32 bs (k + 4 + 4 * (nat M8_NUM_LASERS * r + l))) [0..<nat M8_NUM_LASERS])
          [0..<nat M8_NUM_RETURNS],
      returns_intensities =
        map (\<lambda>r. map (\<lambda>l. bs ! (k + 100 + (nat M8_NUM_LASERS * r + l))) [0..<nat M8_NUM_LASERS])
          [0..<nat M8_NUM_RETURNS],
      returns_status = map (\<lambda>l. bs ! (k + 124 + l)) [0..<nat M8_NUM_LASERS]\<rparr>"

definition as_M8DataPacket :: "byte list \<Rightarrow> M8DataPacket" where
  "as_M8DataPacket bs =
     \<lparr>data = map (\<lambda>i. firing_at bs (132 * i)) [0..<nat M8_FIRING_PER_PKT],
      seconds = le32 bs 6600, nanoseconds = le32 bs 6604, status = le32 bs 6608\<rparr>"

section \<open>The synchronized queue\<close>

text \<open>
  \<open>pcl::SynchronizedQueue\<close> belongs to the Point Cloud Library: a queue and the flag
  \<open>request_to_end\<close> (the field \<open>request_to_end_\<close>) set by \<open>stopQueue\<close>. \<open>enqueue\<close> does nothing once the flag is set;
  \<open>size\<close> returns the length as an \<open>unsigned int\<close>. \<open>dequeue\<close> returns false once the flag
  is set (emptying the queue), takes the front element when there is one, and waits
  otherwise.
\<close>

record 'a SynchronizedQueue =
  items :: "'a list"
  request_to_end :: bool

definition new_SynchronizedQueue :: "'a SynchronizedQueue" where
  "new_SynchronizedQueue = \<lparr>items = [], request_to_end = False\<rparr>"

definition enqueue :: "'a \<Rightarrow> 'a SynchronizedQueue \<Rightarrow> 'a SynchronizedQueue" where
  "enqueue v q = (if request_to_end q then q else q\<lparr>items := items q @ [v]\<rparr>)"

definition queue_size :: "'a SynchronizedQueue \<Rightarrow> 32 word" where
  "queue_size q = of_nat (length (items q))"

definition isEmpty :: "'a SynchronizedQueue \<Rightarrow> bool" where
  "isEmpty q = (items q = [])"

definition stopQueue :: "'a SynchronizedQueue \<Rightarrow> 'a SynchronizedQueue" where
  "stopQueue q = q\<lparr>request_to_end := True\<rparr>"

datatype 'a dequeued = Ended | Got 'a | Waiting

definition dequeue :: "'a SynchronizedQueue \<Rightarrow> 'a dequeued \<times> 'a SynchronizedQueue" where
  "dequeue q =
     (if request_to_end q then (Ended, q\<lparr>items := []\<rparr>)
      else case items q of
             [] \<Rightarrow> (Waiting, q)
           | v # vs \<Rightarrow> (Got v, q\<lparr>items := vs\<rparr>))"

section \<open>The client\<close>

datatype endpoint = Endpoint (address: "32 word") (port: "16 word")

definition address_v4_any :: "32 word" where
  "address_v4_any = 0"

datatype socket = Socket (connected_to: "endpoint option")

datatype thread = Thread_processM8Packets | Thread_read

datatype message =
    Dropped_total int  \<comment> \<open>enqueueM8Packet: dropped a total of ... packets due to full buffer.\<close>
  | Unable_to_bind string  \<comment> \<open>Unable to bind to socket! ...\<close>
  | Sensor_connected  \<comment> \<open>Sensor connected, starting to read packets\<close>

text \<open>
  The state of an \<open>M8Client\<close>. \<open>num_slots\<close> is the number of callbacks connected to
  \<open>sweep_xyzi_signal_\<close> and \<open>emitted\<close> the clouds the signal has been called with, in
  order; \<open>cerr\<close> and \<open>cout\<close> are the lines written to the two streams. A thread field holds
  the thread that has been launched, if any; what the thread then does is the function it
  names. \<open>dropped_packets_\<close> is an \<open>int\<close>: its value is the \<open>sint\<close> of the word. The
  fields that no function of the client reads are left out.
\<close>

record M8Client =
  data_queue :: "byte list SynchronizedQueue"
  tcp_listener_endpoint :: endpoint
  read_socket :: "socket option"
  queue_consumer_thread :: "thread option"
  read_packet_thread :: "thread option"
  terminate_read_packet_thread :: bool
  current_sweep_xyzi :: PointCloud
  num_slots :: nat
  emitted :: "PointCloud list"
  last_azimuth :: fp
  sweep_counter :: "32 word"
  scan_counter :: "32 word"
  dropped_packets :: "32 word"
  cos_lookup_table :: "fp list"
  sin_lookup_table :: "fp list"
  cos_vertical_angles :: "fp list"
  sin_vertical_angles :: "fp list"
  cerr :: "message list"
  cout :: "message list"

subsection \<open>Construction\<close>

definition M_PI :: rat where
  \<comment> \<open>the \<open>double\<close> nearest to pi\<close>
  "M_PI = 884279719003555 / 281474976710656"

definition M8_VERTICAL_ANGLES :: "rat list" where
  "M8_VERTICAL_ANGLES =
     [- 318505 / 1000000, - 2692 / 10000, - 218009 / 1000000, - 165195 / 1000000,
      - 111003 / 1000000, - 557982 / 10000000, 0, 557982 / 10000000]"

definition table_angle :: "fp_env \<Rightarrow> nat \<Rightarrow> fp" where
  "table_angle E i =
     (let to_rad = fp_div (rnd_double E) (Num (Fin M_PI)) (Num (Fin 180))
      in fp_mul (rnd_double E) to_rad
           (fp_mul (rnd_double E)
              (fp_div (rnd_double E) (fp_of_int (int i)) (fp_of_int M8_NUM_ROT_ANGLES))
              (Num (Fin 360))))"

definition make_cos_lookup_table :: "fp_env \<Rightarrow> fp list" where
  "make_cos_lookup_table E = map (\<lambda>i. std_cos E (table_angle E i)) [0..<nat (M8_NUM_ROT_ANGLES + 1)]"

definition make_sin_lookup_table :: "fp_env \<Rightarrow> fp list" where
  "make_sin_lookup_table E = map (\<lambda>i. std_sin E (table_angle E i)) [0..<nat (M8_NUM_ROT_ANGLES + 1)]"

text \<open>
  The constructor. It leaves \<open>scan_counter_\<close> uninitialised: \<open>scan0\<close> is the value the
  field happens to hold.
\<close>

definition new_M8Client :: "fp_env \<Rightarrow> 32 word \<Rightarrow> 16 word \<Rightarrow> 32 word \<Rightarrow> M8Client" where
  "new_M8Client E ip prt scan0 =
     \<lparr>data_queue = new_SynchronizedQueue,
      tcp_listener_endpoint = Endpoint ip prt,
      read_socket = None,
      queue_consumer_thread = None,
      read_packet_thread = None,
      terminate_read_packet_thread = False,
      current_sweep_xyzi = new_PointCloud,
      num_slots = 0,
      emitted = [],
      last_azimuth = Num (Fin 65000),
      sweep_counter = 0,
      scan_counter = scan0,
      dropped_packets = 0,
      cos_lookup_table = make_cos_lookup_table E,
      sin_lookup_table = make_sin_lookup_table E,
      cos_vertical_angles = map (\<lambda>a. std_cos E (Num (rnd_double E a))) M8_VERTICAL_ANGLES,
      sin_vertical_angles = map (\<lambda>a. std_sin E (Num (rnd_double E a))) M8_VERTICAL_ANGLES,
      cerr = [],
      cout = []\<rparr>"


definition isRunning :: "M8Client \<Rightarrow> bool" where
  "isRunning c = (\<not> isEmpty (data_queue c) \<or> read_packet_thread c \<noteq> None)"

subsection \<open>enqueueM8Packet\<close>

definition enqueueM8Packet :: "byte list \<Rightarrow> nat \<Rightarrow> M8Client \<Rightarrow> M8Client" where
  "enqueueM8Packet dat bytes_received c =
     (if int bytes_received = M8_PACKET_BYTES then
        if unat (queue_size (data_queue c)) > 1000 then
          let c = c\<lparr>dropped_packets := dropped_packets c + 1\<rparr>
          in if dropped_packets c AND (dropped_packets c - 1) = 0
             then c\<lparr>cerr := cerr c @ [Dropped_total (sint (dropped_packets c))]\<rparr>
             else c
        else
          let dup = take bytes_received dat
          in c\<lparr>data_queue := enqueue dup (data_queue c)\<rparr>
      else c)"

subsection \<open>start\<close>

text \<open>
  The network decides whether a connection attempt (open the socket, set no-delay,
  connect to the endpoint) succeeds, or throws a \<open>system_error\<close> with a message. The
  \<open>run\<close> of the socket service has no work queued and returns at once.
\<close>

type_synonym network = "endpoint \<Rightarrow> string option"

definition connected :: "endpoint \<Rightarrow> M8Client \<Rightarrow> M8Client" where
  \<comment> \<open>the end of \<open>start\<close>, once a connection has been established\<close>
  "connected ep c =
     (let c = c\<lparr>read_socket := Some (Socket (Some ep))\<rparr>;
          c = c\<lparr>cout := cout c @ [Sensor_connected]\<rparr>
      in c\<lparr>read_packet_thread := Some Thread_read\<rparr>)"

definition start :: "network \<Rightarrow> M8Client \<Rightarrow> M8Client" where
  "start net c =
     (let c = c\<lparr>terminate_read_packet_thread := False\<rparr>;
          c = c\<lparr>queue_consumer_thread := Some Thread_processM8Packets\<rparr>;
          c = c\<lparr>read_socket := Some (Socket None)\<rparr>
      in case net (tcp_listener_endpoint c) of
           None \<Rightarrow> connected (tcp_listener_endpoint c) c
         | Some bind \<Rightarrow>
             (let c = c\<lparr>read_socket := Some (Socket None)\<rparr>;
                  c = c\<lparr>tcp_listener_endpoint :=
                          Endpoint address_v4_any (port (tcp_listener_endpoint c))\<rparr>
              in case net (tcp_listener_endpoint c) of
                   None \<Rightarrow> connected (tcp_listener_endpoint c) c
                 | Some e \<Rightarrow> c\<lparr>cerr := cerr c @ [Unable_to_bind e]\<rparr>))"

subsection \<open>toPointClouds\<close>

definition fireCurrentSweep :: "M8Client \<Rightarrow> M8Client" where
  "fireCurrentSweep c =
     (if num_slots c > 0 then c\<lparr>emitted := emitted c @ [current_sweep_xyzi c]\<rparr> else c)"

definition packet_time :: "fp_env \<Rightarrow> M8DataPacket \<Rightarrow> 64 word" where
  \<comment> \<open>\<open>CLIENT_TIME\<close> is not defined: the time is that of the packet\<close>
  "packet_time E p =
     to_time_t E
       (fp_add (rnd_double E)
          (fp_mul (rnd_double E) (fp_of_int (uint (seconds p))) (Num (Fin 1000000000)))
          (fp_of_int (uint (nanoseconds p))))"

definition position_delta :: "M8DataPacket \<Rightarrow> int" where
  \<comment> \<open>\<open>data[0].position - data[M8_FIRING_PER_PKT-1].position\<close>, computed in \<open>int\<close>\<close>
  "position_delta p =
     uint (position (data p ! 0)) - uint (position (data p ! nat (M8_FIRING_PER_PKT - 1)))"

definition packet_spin :: "M8DataPacket \<Rightarrow> bool" where
  "packet_spin p = (if \<bar>position_delta p\<bar> < M8_FIRING_PER_PKT div 10 then False else True)"

definition packet_direction :: "M8DataPacket \<Rightarrow> int" where
  "packet_direction p =
     (if packet_spin p then
        if position_delta p > 0
        then (if position_delta p > 4000 then 1 else - 1)
        else (if uint (position (data p ! nat (M8_FIRING_PER_PKT - 1))) - uint (position (data p ! 0)) > 4000
              then 1 else - 1)
      else 1)"

text \<open>
  The position used for the firing \<open>i\<close>: when the sensor does not spin, the field is
  first overwritten, in \<open>unsigned int\<close> arithmetic.
\<close>

definition firing_position :: "bool \<Rightarrow> 32 word \<Rightarrow> nat \<Rightarrow> M8FiringData \<Rightarrow> 16 word" where
  "firing_position spin scan i d =
     (if \<not> spin then ucast ((scan * word_of_int M8_FIRING_PER_PKT + of_nat i) mod 1000 :: 32 word)
      else position d)"

definition azimuth_angle :: "fp_env \<Rightarrow> 16 word \<Rightarrow> fp" where
  "azimuth_angle E pos =
     fp_sub (rnd_double E)
       (fp_mul (rnd_double E)
          (fp_div (rnd_double E)
             (fp_of_int ((uint pos + M8_NUM_ROT_ANGLES div 2) mod M8_NUM_ROT_ANGLES))
             (fp_of_int M8_NUM_ROT_ANGLES))
          (Num (Fin 360)))
       (Num (Fin 180))"

definition sweep_boundary :: "fp_env \<Rightarrow> int \<Rightarrow> fp \<Rightarrow> fp \<Rightarrow> bool" where
  \<comment> \<open>\<open>direction * azimuth_angle < direction * last_azimuth_\<close>\<close>
  "sweep_boundary E direction az last_az =
     fp_less (fp_mul (rnd_double E) (fp_of_int direction) az)
             (fp_mul (rnd_double E) (fp_of_int direction) last_az)"

text \<open>What the loop body does once the boundary test has succeeded.\<close>

definition complete_sweep :: "64 word \<Rightarrow> M8Client \<Rightarrow> error + M8Client" where
  "complete_sweep time c =
     (case (if length (points (current_sweep_xyzi c)) > 0 then
              case organizeCloud (current_sweep_xyzi c) of
                Inl e \<Rightarrow> Inl e
              | Inr organized \<Rightarrow>
                  let c = c\<lparr>current_sweep_xyzi := organized\<rparr>;
                      c = c\<lparr>current_sweep_xyzi := (current_sweep_xyzi c)\<lparr>header_stamp := time\<rparr>\<rparr>;
                      c = c\<lparr>current_sweep_xyzi := (current_sweep_xyzi c)\<lparr>header_seq := sweep_counter c\<rparr>\<rparr>;
                      c = c\<lparr>sweep_counter := sweep_counter c + 1\<rparr>
                  in Inr (fireCurrentSweep c)
            else Inr c) of
        Inl e \<Rightarrow> Inl e
      | Inr c \<Rightarrow>
          let c = c\<lparr>current_sweep_xyzi := new_PointCloud\<rparr>
          in Inr (c\<lparr>current_sweep_xyzi := (current_sweep_xyzi c)\<lparr>is_dense := True\<rparr>\<rparr>))"

definition centimetre :: fp where
  \<comment> \<open>the \<open>double\<close> of the literal \<open>.01\<close>\<close>
  "centimetre = Num (Fin (5764607523034235 / 576460752303423488))"

definition sample_range :: "fp_env \<Rightarrow> M8FiringData \<Rightarrow> nat \<Rightarrow> fp" where
  \<comment> \<open>\<open>float range = data.returns_distances[0][j] * .01\<close>\<close>
  "sample_range E d j =
     to_float E (fp_mul (rnd_double E) (fp_of_int (uint (returns_distances d ! 0 ! j))) centimetre)"

text \<open>The body of the loop over the lasers.\<close>

definition add_sample :: "fp_env \<Rightarrow> M8FiringData \<Rightarrow> fp \<Rightarrow> fp \<Rightarrow> nat \<Rightarrow> M8Client \<Rightarrow> M8Client" where
  "add_sample E d cos_horizontal_angle sin_horizontal_angle j c =
     (let rng = sample_range E d j;
          xyzi = new_PointXYZI;
          xyzi = computeXYZ E rng cos_horizontal_angle sin_horizontal_angle
                   (cos_vertical_angles c ! j) (sin_vertical_angles c ! j) xyzi;
          xyzi = xyzi\<lparr>pt_intensity := fp_of_int (uint (returns_intensities d ! 0 ! j))\<rparr>;
          c = c\<lparr>current_sweep_xyzi := push_back xyzi (current_sweep_xyzi c)\<rparr>
      in if is_dense (current_sweep_xyzi c) \<and> fp_isnan rng
         then c\<lparr>current_sweep_xyzi := (current_sweep_xyzi c)\<lparr>is_dense := False\<rparr>\<rparr>
         else c)"

text \<open>
  The body of the loop over the firings. The lookup tables are vectors read with an
  unchecked \<open>operator[]\<close>: a position past their end is an error of the model.
\<close>

definition firing_step ::
  "fp_env \<Rightarrow> 64 word \<Rightarrow> bool \<Rightarrow> int \<Rightarrow> M8DataPacket \<Rightarrow> nat \<Rightarrow> M8Client \<Rightarrow> error + M8Client" where
  "firing_step E time spin direction p i c =
     (let d = data p ! i;
          pos = firing_position spin (scan_counter c) i d;
          azimuth = azimuth_angle E pos
      in case (if sweep_boundary E direction azimuth (last_azimuth c)
               then complete_sweep time c else Inr c) of
           Inl e \<Rightarrow> Inl e
         | Inr c \<Rightarrow>
             if unat pos < length (cos_lookup_table c) \<and> unat pos < length (sin_lookup_table c) then
               let cos_horizontal_angle = cos_lookup_table c ! unat pos;
                   sin_horizontal_angle = sin_lookup_table c ! unat pos;
                   c = fold (add_sample E d cos_horizontal_angle sin_horizontal_angle)
                         [0..<nat M8_NUM_LASERS] c
               in Inr (c\<lparr>last_azimuth := azimuth\<rparr>)
             else Inl (TableReadOutOfBounds (unat pos)))"

fun for_each :: "('a \<Rightarrow> 's \<Rightarrow> error + 's) \<Rightarrow> 'a list \<Rightarrow> 's \<Rightarrow> error + 's" where
  "for_each f [] s = Inr s"
| "for_each f (v # vs) s = (case f v s of Inl e \<Rightarrow> Inl e | Inr s' \<Rightarrow> for_each f vs s')"

definition toPointClouds :: "fp_env \<Rightarrow> M8DataPacket \<Rightarrow> M8Client \<Rightarrow> error + M8Client" where
  "toPointClouds E data_packet c =
     (let time = packet_time E data_packet;
          c = c\<lparr>scan_counter := scan_counter c + 1\<rparr>;
          spin = packet_spin data_packet;
          direction = packet_direction data_packet
      in for_each (firing_step E time spin direction data_packet) [0..<nat M8_FIRING_PER_PKT] c)"

subsection \<open>processM8Packets\<close>

text \<open>
  The consumer loop, run on the queue as it stands: it ends when \<open>dequeue\<close> returns
  false, and the model also returns where the thread would wait for the next packet.
\<close>

function processM8Packets :: "fp_env \<Rightarrow> M8Client \<Rightarrow> error + M8Client" where
  "processM8Packets E c =
     (case dequeue (data_queue c) of
        (Ended, q) \<Rightarrow> Inr (c\<lparr>data_queue := q\<rparr>)
      | (Waiting, q) \<Rightarrow> Inr (c\<lparr>data_queue := q\<rparr>)
      | (Got buf, q) \<Rightarrow>
          (case toPointClouds E (as_M8DataPacket buf) (c\<lparr>data_queue := q\<rparr>) of
             Inl e \<Rightarrow> Inl e
           | Inr c' \<Rightarrow> processM8Packets E c'))"
  by pat_completeness auto

subsection \<open>The point added for one laser\<close>

text \<open>
  The point that \<open>add_sample\<close> builds for the laser \<open>j\<close>, from the angle tables of the
  client \<open>c\<close>.
\<close>

definition sample_point :: "fp_env \<Rightarrow> M8Client \<Rightarrow> M8FiringData \<Rightarrow> fp \<Rightarrow> fp \<Rightarrow> nat \<Rightarrow> PointXYZI" where
  "sample_point E c d cos_horizontal_angle sin_horizontal_angle j =
     (computeXYZ E (sample_range E d j) cos_horizontal_angle sin_horizontal_angle
        (cos_vertical_angles c ! j) (sin_vertical_angles c ! j) new_PointXYZI)
       \<lparr>pt_intensity := fp_of_int (uint (returns_intensities d ! 0 ! j))\<rparr>"

subsection \<open>The size of the lookup tables\<close>

text \<open>The constructor gives both tables one entry for each position from 0 to 10400.\<close>

definition tables_ok :: "M8Client \<Rightarrow> bool" where
  "tables_ok c =
     (length (cos_lookup_table c) = nat (M8_NUM_ROT_ANGLES + 1)
      \<and> length (sin_lookup_table c) = nat (M8_NUM_ROT_ANGLES + 1))"

section \<open>Feeding the queue\<close>

text \<open>Each buffer is offered to \<open>enqueueM8Packet\<close> with its own length, in order.\<close>

definition push_packets :: "byte list list \<Rightarrow> M8Client \<Rightarrow> M8Client" where
  "push_packets bufs c = fold (\<lambda>b. enqueueM8Packet b (length b)) bufs c"

section \<open>Data for the examples\<close>

text \<open>
  A platform with exact arithmetic (nothing is rounded) and constant \<open>cos\<close> and \<open>sin\<close>;
  a firing with a given position and the same distance on every laser; a packet with the
  given positions.
\<close>

definition exact_env :: fp_env where
  "exact_env =
     \<lparr>rnd_double = Fin, rnd_float = Fin,
      to_time_t = (\<lambda>v. case v of Num (Fin q) \<Rightarrow> word_of_int \<lfloor>q\<rfloor> | _ \<Rightarrow> 0),
      std_cos = (\<lambda>v. Num (Fin 1)), std_sin = (\<lambda>v. Num (Fin 0))\<rparr>"

definition firing_with :: "16 word \<Rightarrow> 32 word \<Rightarrow> M8FiringData" where
  "firing_with pos cm =
     \<lparr>position = pos, padding = 0,
      returns_distances = replicate 3 (replicate 8 cm),
      returns_intensities = replicate 3 (replicate 8 0),
      returns_status = replicate 8 0\<rparr>"

definition packet_with :: "16 word list \<Rightarrow> M8DataPacket" where
  "packet_with ps =
     \<lparr>data = map (\<lambda>pos. firing_with pos 100) ps, seconds = 0, nanoseconds = 0, status = 0\<rparr>"

section \<open>Properties of organizeCloud\<close>

lemma unat_temp_index:
  "unat (of_nat j * 8 + of_nat i :: 32 word) = (j * 8 + i) mod 2 ^ 32"
  by (simp add: unat_word_ariths unat_of_nat mod_simps)

lemma temp_index_in_range:
  assumes "j < unat (of_nat (n div 8) :: 32 word)" "i < 8"
  shows "unat (of_nat j * 8 + of_nat i :: 32 word) < n"
proof -
  have "unat (of_nat (n div 8) :: 32 word) \<le> n div 8"
    by (simp add: unat_of_nat)
  with assms have "j * 8 + i < n" by simp
  moreover have "(j * 8 + i) mod 2 ^ 32 \<le> j * 8 + i" by simp
  ultimately show ?thesis unfolding unat_temp_index by linarith
qed

lemma organize_ring_points:
  assumes "\<forall>j \<in> set js. unat (of_nat j * 8 + of_nat (nat i) :: 32 word) < length (points cur)" "0 \<le> i"
  shows "\<exists>temp'. organize_ring cur i js temp = Inr temp'
           \<and> points temp' = points temp @ map (\<lambda>j. points cur ! unat (of_nat j * 8 + of_nat (nat i) :: 32 word)) js
           \<and> is_dense temp' = is_dense temp
           \<and> header_stamp temp' = header_stamp temp
           \<and> header_seq temp' = header_seq temp"
  using assms
proof (induction js arbitrary: temp)
  case Nil
  then show ?case by simp
next
  case (Cons j js)
  have w: "(word_of_int i :: 32 word) = of_nat (nat i)" using Cons.prems(2) by simp
  let ?p = "points cur ! unat (of_nat j * 8 + of_nat (nat i) :: 32 word)"
  from Cons.prems have "unat (of_nat j * 8 + of_nat (nat i) :: 32 word) < length (points cur)" by simp
  then have step: "organize_ring cur i (j # js) temp = organize_ring cur i js (push_back ?p temp)"
    by (simp add: cloud_at_def M8_NUM_LASERS_def Let_def w)
  from Cons.IH[of "push_back ?p temp"] Cons.prems
  show ?case unfolding step by (auto simp: push_back_def)
qed

lemma laser_indices: "rev [0..M8_NUM_LASERS - 1] = [7, 6, 5, 4, 3, 2, 1, 0]"
  unfolding M8_NUM_LASERS_def by code_simp

lemma organize_rings_points:
  assumes "\<forall>i \<in> set is. 0 \<le> i \<and> i < 8" "w = of_nat (length (points cur) div 8)"
  shows "\<exists>temp'. organize_rings cur w is temp = Inr temp'
           \<and> points temp' = points temp @ concat (map (\<lambda>i. map (\<lambda>j. points cur ! unat (of_nat j * 8 + of_nat (nat i) :: 32 word)) [0..<unat w]) is)
           \<and> is_dense temp' = is_dense temp
           \<and> header_stamp temp' = header_stamp temp
           \<and> header_seq temp' = header_seq temp"
  using assms(1)
proof (induction "is" arbitrary: temp)
  case Nil
  then show ?case by simp
next
  case (Cons i "is")
  then have i: "0 \<le> i" "nat i < 8" by auto
  have "\<forall>j \<in> set [0..<unat w]. unat (of_nat j * 8 + of_nat (nat i) :: 32 word) < length (points cur)"
    using temp_index_in_range[OF _ i(2)] assms(2) by simp
  from organize_ring_points[OF this i(1), of temp]
  obtain t where t: "organize_ring cur i [0..<unat w] temp = Inr t"
    "points t = points temp @ map (\<lambda>j. points cur ! unat (of_nat j * 8 + of_nat (nat i) :: 32 word)) [0..<unat w]"
    "is_dense t = is_dense temp" "header_stamp t = header_stamp temp" "header_seq t = header_seq temp"
    by blast
  from Cons.IH[of t] Cons.prems
  show ?case by (simp add: t)
qed

lemma organizeCloud_eq:
  "organizeCloud c = Inr
     \<lparr>header_stamp = 0, header_seq = 0,
      points = concat (map (\<lambda>i. map (\<lambda>j. points c ! ((j * 8 + i) mod 2 ^ 32))
                                  [0..<(length (points c) div 8) mod 2 ^ 32]) (rev [0..<8])),
      width = of_nat (length (points c) div 8), height = 8, is_dense = True\<rparr>"
proof -
  define w :: "32 word" where "w = of_nat (length (points c) div 8)"
  have "\<forall>i \<in> set (rev [0..M8_NUM_LASERS - 1]). 0 \<le> i \<and> i < 8"
    by (simp add: M8_NUM_LASERS_def)
  from organize_rings_points[OF this w_def, of new_PointCloud]
  obtain t where t: "organize_rings c w (rev [0..M8_NUM_LASERS - 1]) new_PointCloud = Inr t"
    "points t = points new_PointCloud @ concat (map (\<lambda>i. map (\<lambda>j. points c ! unat (of_nat j * 8 + of_nat (nat i) :: 32 word)) [0..<unat w]) (rev [0..M8_NUM_LASERS - 1]))"
    "is_dense t = is_dense new_PointCloud" "header_stamp t = header_stamp new_PointCloud"
    "header_seq t = header_seq new_PointCloud"
    by blast
  have uw: "unat w = (length (points c) div 8) mod 2 ^ 32"
    by (simp add: w_def unat_of_nat)
  have r: "rev [0..<8::nat] = [7, 6, 5, 4, 3, 2, 1, 0]" by code_simp
  have "organizeCloud c = Inr (t\<lparr>height := 8, width := w\<rparr>)"
    using t(1) by (simp add: organizeCloud_def Let_def w_def M8_NUM_LASERS_def)
  also have "t\<lparr>height := 8, width := w\<rparr> =
     \<lparr>header_stamp = 0, header_seq = 0,
      points = concat (map (\<lambda>i. map (\<lambda>j. points c ! ((j * 8 + i) mod 2 ^ 32))
                                  [0..<(length (points c) div 8) mod 2 ^ 32]) (rev [0..<8])),
      width = of_nat (length (points c) div 8), height = 8, is_dense = True\<rparr>"
    apply (rule PointCloud.equality)
    using t(2-) unat_temp_index
    by (simp_all add: new_PointCloud_def laser_indices r w_def unat_of_nat)
  finally show ?thesis .
qed

lemma ring_indices_mset:
  "mset (concat (map (\<lambda>i. map (\<lambda>j. j * 8 + i) [0..<w]) (rev [0..<8::nat]))) = mset [0..<8 * w]"
proof -
  have r: "rev [0..<8::nat] = [7, 6, 5, 4, 3, 2, 1, 0]" by code_simp
  have u: "[0..<8::nat] = [0, 1, 2, 3, 4, 5, 6, 7]" by code_simp
  have blk: "[8 * w..<8 * w + 8] = map (\<lambda>k. 8 * w + k) [0, 1, 2, 3, 4, 5, 6, 7]" for w :: nat
    using map_add_upt[of "8 * w" 8] by (simp only: u add.commute)
  have e: "[0..<8 * Suc w] = [0..<8 * w] @ map (\<lambda>k. 8 * w + k) [0, 1, 2, 3, 4, 5, 6, 7]" for w :: nat
  proof -
    have "8 * Suc w = 8 * w + 8" by simp
    then have "[0..<8 * Suc w] = [0..<8 * w + 8]" by (rule arg_cong)
    also have "\<dots> = [0..<8 * w] @ [8 * w..<8 * w + 8]" by (rule upt_add_eq_append) simp
    finally show ?thesis by (simp only: blk)
  qed
  show ?thesis unfolding r
  proof (induction w)
    case 0
    show ?case by simp
  next
    case (Suc w)
    from Suc show ?case unfolding e by (simp add: ac_simps)
  qed
qed

lemma organize_is_permutation:
  assumes "length xs = 8 * w"
  shows "mset (concat (map (\<lambda>i. map (\<lambda>j. xs ! (j * 8 + i)) [0..<w]) (rev [0..<8::nat]))) = mset xs"
proof -
  have "concat (map (\<lambda>i. map (\<lambda>j. xs ! (j * 8 + i)) [0..<w]) (rev [0..<8::nat]))
        = map ((!) xs) (concat (map (\<lambda>i. map (\<lambda>j. j * 8 + i) [0..<w]) (rev [0..<8::nat])))"
    by (simp add: map_concat comp_def)
  also have "mset \<dots> = image_mset ((!) xs) (mset [0..<8 * w])"
    by (simp only: mset_map ring_indices_mset)
  also have "\<dots> = mset (map ((!) xs) [0..<length xs])"
    by (simp only: mset_map assms)
  also have "\<dots> = mset xs" by (simp only: map_nth)
  finally show ?thesis .
qed

text \<open>
  C2. For a sweep whose length is a multiple of 8 (and which the 32-bit width of a cloud
  can hold), \<open>organizeCloud\<close> succeeds and returns a cloud of the same length and
  the same multiset of points. Its points are listed ring by ring, from laser 7 down to
  laser 0, and within a ring by firing index \<open>j\<close>; the point for laser \<open>i\<close> and firing
  \<open>j\<close> is the input point at index \<open>j * 8 + i\<close>. The height is set to 8 and the width
  to the length divided by 8.
\<close>

theorem organizeCloud_permutation:
  assumes "length (points c) mod 8 = 0" and "length (points c) < 2 ^ 32"
  shows "\<exists>c'. organizeCloud c = Inr c'
           \<and> length (points c') = length (points c)
           \<and> mset (points c') = mset (points c)
           \<and> points c' = concat (map (\<lambda>i. map (\<lambda>j. points c ! (j * 8 + i))
                                               [0..<length (points c) div 8]) (rev [0..<8]))
           \<and> height c' = 8
           \<and> unat (width c') = length (points c) div 8"
proof -
  define n where "n = length (points c) div 8"
  have len: "length (points c) = 8 * n" using assms(1) by (auto simp: n_def)
  have n: "n mod 2 ^ 32 = n" using assms(2) len by simp
  have idx: "(j * 8 + i) mod 2 ^ 32 = j * 8 + i" if "j < n" "i < 8" for i j
    using that assms(2) len by simp
  have pts: "concat (map (\<lambda>i. map (\<lambda>j. points c ! ((j * 8 + i) mod 2 ^ 32)) [0..<n mod 2 ^ 32]) (rev [0..<8]))
     = concat (map (\<lambda>i. map (\<lambda>j. points c ! (j * 8 + i)) [0..<n]) (rev [0..<8]))"
    unfolding n by (rule arg_cong[where f = concat], rule map_cong, simp, rule map_cong, simp, use idx in auto)
  have m: "mset (concat (map (\<lambda>i. map (\<lambda>j. points c ! (j * 8 + i)) [0..<n]) (rev [0..<8]))) = mset (points c)"
    by (rule organize_is_permutation[OF len])
  have l: "length (concat (map (\<lambda>i. map (\<lambda>j. points c ! (j * 8 + i)) [0..<n]) (rev [0..<8]))) = length (points c)"
    using m by (metis size_mset)
  have u: "unat (of_nat n :: 32 word) = n" using n by (simp add: unat_of_nat)
  show ?thesis
    using organizeCloud_eq[of c] pts m l u unfolding n_def[symmetric] by simp
qed


theorem organizeCloud_permutation_witness:
  "length (points (new_PointCloud\<lparr>points := map (\<lambda>k. new_PointXYZI\<lparr>pt_intensity := fp_of_int (int k)\<rparr>) [0..<16]\<rparr>)) mod 8 = 0
   \<and> length (points (new_PointCloud\<lparr>points := map (\<lambda>k. new_PointXYZI\<lparr>pt_intensity := fp_of_int (int k)\<rparr>) [0..<16]\<rparr>)) < 2 ^ 32
   \<and> (\<exists>c'. organizeCloud (new_PointCloud\<lparr>points := map (\<lambda>k. new_PointXYZI\<lparr>pt_intensity := fp_of_int (int k)\<rparr>) [0..<16]\<rparr>) = Inr c'
          \<and> length (points c') = 16
          \<and> map pt_intensity (points c')
              = map fp_of_int [7, 15, 6, 14, 5, 13, 4, 12, 3, 11, 2, 10, 1, 9, 0, 8]
          \<and> height c' = 8 \<and> unat (width c') = 2)"
proof -
  let ?c = "new_PointCloud\<lparr>points := map (\<lambda>k. new_PointXYZI\<lparr>pt_intensity := fp_of_int (int k)\<rparr>) [0..<16]\<rparr>"
  have l: "length (points ?c) = 16" by simp
  have h1: "length (points ?c) mod 8 = 0" and h2: "length (points ?c) < 2 ^ 32"
    unfolding l by simp_all
  have r: "rev [0..<8::nat] = [7, 6, 5, 4, 3, 2, 1, 0]" by code_simp
  have d: "length (points ?c) div 8 = 2" unfolding l by simp
  have u: "[0..<2::nat] = [0, 1]" by code_simp
  from organizeCloud_permutation[OF h1 h2]
  obtain c' where c': "organizeCloud ?c = Inr c'" "length (points c') = length (points ?c)"
    "points c' = concat (map (\<lambda>i. map (\<lambda>j. points ?c ! (j * 8 + i)) [0..<length (points ?c) div 8]) (rev [0..<8]))"
    "height c' = 8" "unat (width c') = length (points ?c) div 8"
    by blast
  have "map pt_intensity (points c') = map fp_of_int [7, 15, 6, 14, 5, 13, 4, 12, 3, 11, 2, 10, 1, 9, 0, 8]"
    unfolding c'(3) d r u by simp
  with c' h1 h2 l d show ?thesis by simp
qed


section \<open>Properties of computeXYZ\<close>

text \<open>
  C3. \<open>computeXYZ\<close> sets \<open>x\<close>, \<open>y\<close> and \<open>z\<close> to NaN when the range is a NaN. Otherwise,
  with \<open>xy_distance = range * cos_vt - sin_vt\<close>, it sets \<open>y = xy_distance * sin_hz\<close>,
  \<open>x = xy_distance * cos_hz\<close> and \<open>z = range * sin_vt + cos_vt\<close>, each product and sum
  computed in \<open>double\<close> and the three results stored as \<open>float\<close>. The intensity is left
  as it was.
\<close>

theorem computeXYZ_formula:
  "computeXYZ E rng cos_h sin_h cos_v sin_v pt =
     (if rng = NaN then pt\<lparr>pt_x := NaN, pt_y := NaN, pt_z := NaN\<rparr>
      else pt\<lparr>pt_y := to_float E (fp_mul (rnd_double E) (fp_sub (rnd_double E) (fp_mul (rnd_double E) rng cos_v) sin_v) sin_h),
              pt_x := to_float E (fp_mul (rnd_double E) (fp_sub (rnd_double E) (fp_mul (rnd_double E) rng cos_v) sin_v) cos_h),
              pt_z := to_float E (fp_add (rnd_double E) (fp_mul (rnd_double E) rng sin_v) cos_v)\<rparr>)"
  by (simp add: computeXYZ_def fp_isnan_def Let_def)

section \<open>Spin and direction\<close>

lemma packet_direction_by_magnitude:
  "packet_spin p \<Longrightarrow> packet_direction p = (if 4000 < \<bar>position_delta p\<bar> then 1 else - 1)"
  by (auto simp: packet_direction_def position_delta_def)

lemma position_delta_packet_with:
  "length ps = 50 \<Longrightarrow> position_delta (packet_with ps) = uint (ps ! 0) - uint (ps ! 49)"
  by (simp add: position_delta_def packet_with_def firing_with_def M8_FIRING_PER_PKT_def)

text \<open>
  C4 fails on the code. The branch for a positive difference between the first and the
  last position gives \<open>-1\<close> for a small difference and \<open>+1\<close> for one above 4000; the
  branch for the other sign tests the swapped difference and gives the same two results
  instead of the opposite ones. So the direction depends on the size of the difference
  only, not on its sign. The packet with the positions 0 to 49, which is spinning with an
  increasing position, gets \<open>-1\<close>, the same direction as the packet with the positions 49
  down to 0; the packet from 10399 to 2, an increasing position that wraps around, gets
  \<open>+1\<close>, and so does the packet from 2 to 10399.
\<close>

theorem direction_ignores_sign_of_delta:
  "packet_spin (packet_with (map of_nat [0..<50]))
   \<and> position_delta (packet_with (map of_nat [0..<50])) = - 49
   \<and> packet_direction (packet_with (map of_nat [0..<50])) = - 1
   \<and> packet_spin (packet_with (map of_nat (rev [0..<50])))
   \<and> position_delta (packet_with (map of_nat (rev [0..<50]))) = 49
   \<and> packet_direction (packet_with (map of_nat (rev [0..<50]))) = - 1
   \<and> packet_spin (packet_with (10399 # replicate 48 0 @ [2]))
   \<and> position_delta (packet_with (10399 # replicate 48 0 @ [2])) = 10397
   \<and> packet_direction (packet_with (10399 # replicate 48 0 @ [2])) = 1
   \<and> packet_spin (packet_with (2 # replicate 48 0 @ [10399]))
   \<and> position_delta (packet_with (2 # replicate 48 0 @ [10399])) = - 10397
   \<and> packet_direction (packet_with (2 # replicate 48 0 @ [10399])) = 1"
proof -
  have d1: "position_delta (packet_with (map of_nat [0..<50])) = - 49"
    by (simp add: position_delta_packet_with)
  have d2: "position_delta (packet_with (map of_nat (rev [0..<50]))) = 49"
    by (simp add: position_delta_packet_with rev_nth)
  have d3: "position_delta (packet_with (10399 # replicate 48 0 @ [2])) = 10397"
    by (simp add: position_delta_packet_with nth_append)
  have d4: "position_delta (packet_with (2 # replicate 48 0 @ [10399])) = - 10397"
    by (simp add: position_delta_packet_with nth_append)
  have s: "packet_spin (packet_with (map of_nat [0..<50]))"
    "packet_spin (packet_with (map of_nat (rev [0..<50])))"
    "packet_spin (packet_with (10399 # replicate 48 0 @ [2]))"
    "packet_spin (packet_with (2 # replicate 48 0 @ [10399]))"
    unfolding packet_spin_def d1 d2 d3 d4 by (simp_all add: M8_FIRING_PER_PKT_def)
  show ?thesis
    using s packet_direction_by_magnitude[OF s(1)] packet_direction_by_magnitude[OF s(2)]
      packet_direction_by_magnitude[OF s(3)] packet_direction_by_magnitude[OF s(4)]
    unfolding d1 d2 d3 d4 by simp
qed

section \<open>Properties of enqueueM8Packet\<close>

lemma enqueue_wrong_size: "int n \<noteq> M8_PACKET_BYTES \<Longrightarrow> enqueueM8Packet dat n c = c"
  by (simp add: enqueueM8Packet_def)

lemma unat_queue_size: "length (items q) < 2 ^ 32 \<Longrightarrow> unat (queue_size q) = length (items q)"
  by (simp add: queue_size_def unat_of_nat)

lemma enqueue_accepted:
  assumes "length b = 6612" "\<not> request_to_end (data_queue c)" "length (items (data_queue c)) \<le> 1000"
  shows "enqueueM8Packet b 6612 c = c\<lparr>data_queue := (data_queue c)\<lparr>items := items (data_queue c) @ [b]\<rparr>\<rparr>"
  using assms unat_queue_size[of "data_queue c"]
  by (simp add: enqueueM8Packet_def M8_PACKET_BYTES_def enqueue_def)

lemma enqueue_dropped:
  assumes "length b = 6612" "length (items (data_queue c)) = 1001"
  shows "data_queue (enqueueM8Packet b 6612 c) = data_queue c"
    and "dropped_packets (enqueueM8Packet b 6612 c) = dropped_packets c + 1"
  using assms unat_queue_size[of "data_queue c"]
  by (simp_all add: enqueueM8Packet_def M8_PACKET_BYTES_def Let_def)

lemma push_packets_from:
  assumes "\<not> request_to_end (data_queue c)" "\<forall>b \<in> set bufs. length b = 6612"
    "length (items (data_queue c)) \<le> 1001"
  shows "length (items (data_queue (push_packets bufs c)))
           = min (length (items (data_queue c)) + length bufs) 1001
         \<and> dropped_packets (push_packets bufs c)
           = dropped_packets c + of_nat (length (items (data_queue c)) + length bufs - 1001)"
  using assms
proof (induction bufs arbitrary: c)
  case Nil
  then show ?case by (simp add: push_packets_def)
next
  case (Cons b bufs)
  then have b: "length b = 6612" by simp
  let ?c = "enqueueM8Packet b 6612 c"
  have step: "push_packets (b # bufs) c = push_packets bufs ?c"
    by (simp add: push_packets_def b)
  show ?case
  proof (cases "length (items (data_queue c)) = 1001")
    case True
    note d = enqueue_dropped[OF b True]
    have "\<not> request_to_end (data_queue ?c)" "length (items (data_queue ?c)) \<le> 1001"
      using Cons.prems True by (simp_all add: d)
    from Cons.IH[OF this(1) _ this(2)] Cons.prems(2) True
    show ?thesis unfolding step by (simp add: d)
  next
    case False
    with Cons.prems have le: "length (items (data_queue c)) \<le> 1000" by simp
    note a = enqueue_accepted[OF b Cons.prems(1) le]
    have "\<not> request_to_end (data_queue ?c)" "length (items (data_queue ?c)) \<le> 1001"
      using Cons.prems le by (simp_all add: a)
    from Cons.IH[OF this(1) _ this(2)] Cons.prems(2) le
    show ?thesis unfolding step by (simp add: a)
  qed
qed

text \<open>
  C5 (as the code has it). The test of \<open>enqueueM8Packet\<close> is \<open>size > 1000\<close>, so the queue
  takes a packet while it holds at most 1000 and fills up to 1001. Starting from an empty
  queue that has not been stopped, pushing more than 1000 buffers of 6612 bytes with no
  pop in between adds exactly the number pushed minus 1001 to the drop counter, leaves 1001
  buffers in the queue, and at no point does the queue hold more than 1001.
\<close>

theorem queue_overflow_drops:
  assumes "items (data_queue c) = []" "\<not> request_to_end (data_queue c)"
    "\<forall>b \<in> set bufs. length b = 6612" "1000 < length bufs"
  shows "dropped_packets (push_packets bufs c) = dropped_packets c + of_nat (length bufs - 1001)
         \<and> length (items (data_queue (push_packets bufs c))) = 1001
         \<and> (\<forall>k. length (items (data_queue (push_packets (take k bufs) c))) \<le> 1001)"
proof -
  have c: "length (items (data_queue c)) \<le> 1001" using assms(1) by simp
  have "length (items (data_queue (push_packets (take k bufs) c))) \<le> 1001" for k
  proof -
    have "\<forall>b \<in> set (take k bufs). length b = 6612" using assms(3) by (meson in_set_takeD)
    from push_packets_from[OF assms(2) this c] show ?thesis by simp
  qed
  with push_packets_from[OF assms(2,3) c] assms(1,4) show ?thesis by simp
qed

theorem queue_overflow_drops_witness:
  "items (data_queue (new_M8Client exact_env 0 4141 0)) = []
   \<and> \<not> request_to_end (data_queue (new_M8Client exact_env 0 4141 0))
   \<and> list_all (\<lambda>b. length b = 6612) (replicate 1005 (replicate 6612 (0 :: byte)))
   \<and> 1000 < length (replicate 1005 (replicate 6612 (0 :: byte)))
   \<and> sint (dropped_packets (push_packets (replicate 1005 (replicate 6612 0)) (new_M8Client exact_env 0 4141 0))) = 4
   \<and> length (items (data_queue (push_packets (replicate 1005 (replicate 6612 0)) (new_M8Client exact_env 0 4141 0)))) = 1001"
proof -
  let ?c = "new_M8Client exact_env 0 4141 0"
  have 1: "items (data_queue ?c) = []" "\<not> request_to_end (data_queue ?c)" "dropped_packets ?c = 0"
    by (simp_all add: new_M8Client_def new_SynchronizedQueue_def)
  have 2: "\<forall>b \<in> set (replicate 1005 (replicate 6612 (0 :: byte))). length b = 6612" by simp
  have 3: "1000 < length (replicate 1005 (replicate 6612 (0 :: byte)))" by simp
  from queue_overflow_drops[OF 1(1,2) 2 3] 1 show ?thesis
    by (simp add: list_all_iff)
qed

text \<open>
  C5 as stated fails: after 1001 buffers pushed into the empty queue of a new client,
  nothing has been dropped and the queue holds 1001 buffers.
\<close>

theorem queue_capacity_counterexample:
  "dropped_packets (push_packets (replicate 1001 (replicate 6612 0)) (new_M8Client exact_env 0 4141 0)) = 0
   \<and> length (items (data_queue (push_packets (replicate 1001 (replicate 6612 0)) (new_M8Client exact_env 0 4141 0)))) = 1001"
proof -
  let ?c = "new_M8Client exact_env 0 4141 0"
  have 1: "\<not> request_to_end (data_queue ?c)" "length (items (data_queue ?c)) \<le> 1001"
    "items (data_queue ?c) = []" "dropped_packets ?c = 0"
    by (simp_all add: new_M8Client_def new_SynchronizedQueue_def)
  have 2: "\<forall>b \<in> set (replicate 1001 (replicate 6612 (0 :: byte))). length b = 6612" by simp
  from push_packets_from[OF 1(1) 2 1(2)] show ?thesis by (simp add: 1)
qed

text \<open>
  C6 (as the code has it). A push whose size is not 6612 does nothing at all: the queue
  is unchanged, nothing is written to \<open>cerr\<close>, and the drop counter, which counts the
  packets dropped because the buffer is full, is not incremented.
\<close>

theorem wrong_size_ignored:
  "int bytes_received \<noteq> M8_PACKET_BYTES \<Longrightarrow> enqueueM8Packet dat bytes_received c = c"
  by (rule enqueue_wrong_size)

theorem wrong_size_ignored_witness:
  "int (100 :: nat) \<noteq> M8_PACKET_BYTES
   \<and> enqueueM8Packet (replicate 100 0) 100 (new_M8Client exact_env 0 4141 0) = new_M8Client exact_env 0 4141 0"
proof -
  have "int (100 :: nat) \<noteq> M8_PACKET_BYTES" by (simp add: M8_PACKET_BYTES_def)
  with wrong_size_ignored[of 100] show ?thesis by simp
qed

text \<open>
  C6 as stated fails: a push of 100 bytes to a new client does not increment the drop
  counter.
\<close>

theorem wrong_size_counterexample:
  "dropped_packets (enqueueM8Packet (replicate 100 0) 100 (new_M8Client exact_env 0 4141 0))
     \<noteq> dropped_packets (new_M8Client exact_env 0 4141 0) + 1"
  by (simp add: enqueueM8Packet_def M8_PACKET_BYTES_def new_M8Client_def)

section \<open>Properties of start\<close>

text \<open>
  C8 (as the code has it). If the connection to the endpoint fails and the connection
  to the wildcard address on the same port fails too, \<open>start\<close> writes one line to \<open>cerr\<close>
  (with the message of the second failure) and nothing to \<open>cout\<close>, does not launch the
  reader thread, and leaves \<open>isRunning\<close> as it was. The queue consumer thread has been
  launched before the first attempt and stays launched.
\<close>

theorem start_connection_failure:
  assumes "net (tcp_listener_endpoint c) = Some e1"
    and "net (Endpoint address_v4_any (port (tcp_listener_endpoint c))) = Some e2"
  shows "cerr (start net c) = cerr c @ [Unable_to_bind e2]
         \<and> cout (start net c) = cout c
         \<and> read_packet_thread (start net c) = read_packet_thread c
         \<and> queue_consumer_thread (start net c) = Some Thread_processM8Packets
         \<and> isRunning (start net c) = isRunning c
         \<and> read_socket (start net c) = Some (Socket None)"
  using assms by (simp add: start_def Let_def isRunning_def)

theorem start_connection_failure_witness:
  "(\<lambda>ep. Some ''Connection refused'') (tcp_listener_endpoint (new_M8Client exact_env 3232235521 4141 0))
      = Some ''Connection refused''
   \<and> cerr (start (\<lambda>ep. Some ''Connection refused'') (new_M8Client exact_env 3232235521 4141 0))
      = [Unable_to_bind ''Connection refused'']
   \<and> read_packet_thread (start (\<lambda>ep. Some ''Connection refused'') (new_M8Client exact_env 3232235521 4141 0)) = None
   \<and> isRunning (start (\<lambda>ep. Some ''Connection refused'') (new_M8Client exact_env 3232235521 4141 0)) = False"
proof -
  let ?net = "(\<lambda>ep. Some ''Connection refused'') :: network"
  let ?c = "new_M8Client exact_env 3232235521 4141 0"
  have 1: "?net (tcp_listener_endpoint ?c) = Some ''Connection refused''"
    and 2: "?net (Endpoint address_v4_any (port (tcp_listener_endpoint ?c))) = Some ''Connection refused''"
    by simp_all
  have 3: "cerr ?c = []" "read_packet_thread ?c = None" "isRunning ?c = False"
    by (simp_all add: new_M8Client_def isRunning_def isEmpty_def new_SynchronizedQueue_def)
  from start_connection_failure[OF 1 2] show ?thesis by (simp add: 3)
qed

text \<open>
  C8 as stated fails: on a new client, with a network that refuses every connection,
  \<open>start\<close> launches the queue consumer thread.
\<close>

theorem start_launches_consumer_counterexample:
  "queue_consumer_thread (new_M8Client exact_env 3232235521 4141 0) = None
   \<and> queue_consumer_thread (start (\<lambda>ep. Some ''Connection refused'') (new_M8Client exact_env 3232235521 4141 0))
       = Some Thread_processM8Packets"
  by (simp add: start_def Let_def new_M8Client_def)

section \<open>Properties of toPointClouds\<close>

lemma to_float_NaN: "to_float E v = NaN \<longleftrightarrow> v = NaN"
  by (cases "(E, v)" rule: to_float.cases) simp_all

lemma sample_range_not_NaN: "sample_range E d j \<noteq> NaN"
  by (simp add: sample_range_def to_float_NaN fp_of_int_def centimetre_def)

lemma add_sample_eq:
  "add_sample E d ch sh j c =
     c\<lparr>current_sweep_xyzi := push_back (sample_point E c d ch sh j) (current_sweep_xyzi c)\<rparr>"
  by (simp add: add_sample_def sample_point_def Let_def fp_isnan_def sample_range_not_NaN)

lemma fold_add_sample:
  "fold (add_sample E d ch sh) js c =
     c\<lparr>current_sweep_xyzi := fold push_back (map (sample_point E c d ch sh) js) (current_sweep_xyzi c)\<rparr>"
proof (induction js arbitrary: c)
  case Nil
  show ?case by simp
next
  case (Cons j js)
  let ?c = "c\<lparr>current_sweep_xyzi := push_back (sample_point E c d ch sh j) (current_sweep_xyzi c)\<rparr>"
  have m: "map (sample_point E ?c d ch sh) js = map (sample_point E c d ch sh) js"
    by (simp add: sample_point_def)
  have "fold (add_sample E d ch sh) (j # js) c = fold (add_sample E d ch sh) js (add_sample E d ch sh j c)"
    by simp
  also have "add_sample E d ch sh j c = ?c" by (rule add_sample_eq)
  also have "fold (add_sample E d ch sh) js ?c =
     ?c\<lparr>current_sweep_xyzi := fold push_back (map (sample_point E ?c d ch sh) js) (current_sweep_xyzi ?c)\<rparr>"
    by (rule Cons.IH)
  finally show ?case unfolding m by simp
qed

lemma fold_push_back:
  "fold push_back ps cl =
     (if ps = [] then cl
      else cl\<lparr>points := points cl @ ps, width := of_nat (length (points cl) + length ps), height := 1\<rparr>)"
proof (induction ps arbitrary: cl)
  case Nil
  show ?case by simp
next
  case (Cons q ps)
  show ?case by (simp add: Cons.IH) (simp add: push_back_def)
qed

lemma complete_sweep_eq:
  "complete_sweep time c =
     (case organizeCloud (current_sweep_xyzi c) of
        Inl e \<Rightarrow> Inl e
      | Inr organized \<Rightarrow>
          Inr (if points (current_sweep_xyzi c) = [] then c\<lparr>current_sweep_xyzi := new_PointCloud\<lparr>is_dense := True\<rparr>\<rparr>
               else c\<lparr>current_sweep_xyzi := new_PointCloud\<lparr>is_dense := True\<rparr>,
                      sweep_counter := sweep_counter c + 1,
                      emitted := emitted c @ (if 0 < num_slots c
                                   then [organized\<lparr>header_stamp := time, header_seq := sweep_counter c\<rparr>]
                                   else [])\<rparr>))"
  using organizeCloud_eq[of "current_sweep_xyzi c"]
  by (simp add: complete_sweep_def Let_def fireCurrentSweep_def)

lemma organizeCloud_dense: "\<exists>organized. organizeCloud cl = Inr organized \<and> is_dense organized"
  using organizeCloud_eq[of cl] by simp

lemma firing_step_cases:
  assumes "d = data p ! i" "pos = firing_position spin (scan_counter c) i d"
    and "azimuth = azimuth_angle E pos"
  shows "\<exists>organized. organizeCloud (current_sweep_xyzi c) = Inr organized \<and> is_dense organized \<and>
     firing_step E time spin direction p i c =
       (if unat pos < length (cos_lookup_table c) \<and> unat pos < length (sin_lookup_table c) then
          Inr ((fold (add_sample E d (cos_lookup_table c ! unat pos) (sin_lookup_table c ! unat pos))
                  [0..<8]
                  (if sweep_boundary E direction azimuth (last_azimuth c) then
                     if points (current_sweep_xyzi c) = []
                     then c\<lparr>current_sweep_xyzi := new_PointCloud\<lparr>is_dense := True\<rparr>\<rparr>
                     else c\<lparr>current_sweep_xyzi := new_PointCloud\<lparr>is_dense := True\<rparr>,
                            sweep_counter := sweep_counter c + 1,
                            emitted := emitted c @ (if 0 < num_slots c
                                         then [organized\<lparr>header_stamp := time, header_seq := sweep_counter c\<rparr>]
                                         else [])\<rparr>
                   else c))
               \<lparr>last_azimuth := azimuth\<rparr>)
        else Inl (TableReadOutOfBounds (unat pos)))"
proof -
  from organizeCloud_dense[of "current_sweep_xyzi c"]
  obtain organized where o: "organizeCloud (current_sweep_xyzi c) = Inr organized" "is_dense organized"
    by blast
  have cs: "complete_sweep time c =
          Inr (if points (current_sweep_xyzi c) = [] then c\<lparr>current_sweep_xyzi := new_PointCloud\<lparr>is_dense := True\<rparr>\<rparr>
               else c\<lparr>current_sweep_xyzi := new_PointCloud\<lparr>is_dense := True\<rparr>,
                      sweep_counter := sweep_counter c + 1,
                      emitted := emitted c @ (if 0 < num_slots c
                                   then [organized\<lparr>header_stamp := time, header_seq := sweep_counter c\<rparr>]
                                   else [])\<rparr>)"
    unfolding complete_sweep_eq o by simp
  have "firing_step E time spin direction p i c =
       (if unat pos < length (cos_lookup_table c) \<and> unat pos < length (sin_lookup_table c) then
          Inr ((fold (add_sample E d (cos_lookup_table c ! unat pos) (sin_lookup_table c ! unat pos))
                  [0..<8]
                  (if sweep_boundary E direction azimuth (last_azimuth c) then
                     if points (current_sweep_xyzi c) = []
                     then c\<lparr>current_sweep_xyzi := new_PointCloud\<lparr>is_dense := True\<rparr>\<rparr>
                     else c\<lparr>current_sweep_xyzi := new_PointCloud\<lparr>is_dense := True\<rparr>,
                            sweep_counter := sweep_counter c + 1,
                            emitted := emitted c @ (if 0 < num_slots c
                                         then [organized\<lparr>header_stamp := time, header_seq := sweep_counter c\<rparr>]
                                         else [])\<rparr>
                   else c))
               \<lparr>last_azimuth := azimuth\<rparr>)
        else Inl (TableReadOutOfBounds (unat pos)))"
    unfolding firing_step_def Let_def assms cs
    by (auto simp add: M8_NUM_LASERS_def simp del: upt_Suc)
  with o show ?thesis by blast
qed

lemma firing_step_preserves:
  assumes "firing_step E time spin direction p i c = Inr c'"
  shows "scan_counter c' = scan_counter c" "cos_lookup_table c' = cos_lookup_table c"
    "sin_lookup_table c' = sin_lookup_table c" "cos_vertical_angles c' = cos_vertical_angles c"
    "sin_vertical_angles c' = sin_vertical_angles c" "data_queue c' = data_queue c"
    "num_slots c' = num_slots c" "dropped_packets c' = dropped_packets c"
    "is_dense (current_sweep_xyzi c) \<Longrightarrow> is_dense (current_sweep_xyzi c')"
    "list_all is_dense (emitted c) \<Longrightarrow> list_all is_dense (emitted c')"
proof -
  from firing_step_cases[OF refl refl refl, where c = c and E = E and p = p and i = i and spin = spin and time = time and direction = direction]
  obtain organized where o: "is_dense organized"
    and f: "firing_step E time spin direction p i c =
       (if unat (firing_position spin (scan_counter c) i (data p ! i)) < length (cos_lookup_table c)
           \<and> unat (firing_position spin (scan_counter c) i (data p ! i)) < length (sin_lookup_table c) then
          Inr ((fold (add_sample E (data p ! i)
                       (cos_lookup_table c ! unat (firing_position spin (scan_counter c) i (data p ! i)))
                       (sin_lookup_table c ! unat (firing_position spin (scan_counter c) i (data p ! i))))
                  [0..<8]
                  (if sweep_boundary E direction (azimuth_angle E (firing_position spin (scan_counter c) i (data p ! i))) (last_azimuth c) then
                     if points (current_sweep_xyzi c) = []
                     then c\<lparr>current_sweep_xyzi := new_PointCloud\<lparr>is_dense := True\<rparr>\<rparr>
                     else c\<lparr>current_sweep_xyzi := new_PointCloud\<lparr>is_dense := True\<rparr>,
                            sweep_counter := sweep_counter c + 1,
                            emitted := emitted c @ (if 0 < num_slots c
                                         then [organized\<lparr>header_stamp := time, header_seq := sweep_counter c\<rparr>]
                                         else [])\<rparr>
                   else c))
               \<lparr>last_azimuth := azimuth_angle E (firing_position spin (scan_counter c) i (data p ! i))\<rparr>)
        else Inl (TableReadOutOfBounds (unat (firing_position spin (scan_counter c) i (data p ! i)))))"
    by blast
  note c' = assms[unfolded f fold_add_sample fold_push_back]
  show "scan_counter c' = scan_counter c" "cos_lookup_table c' = cos_lookup_table c"
    "sin_lookup_table c' = sin_lookup_table c" "cos_vertical_angles c' = cos_vertical_angles c"
    "sin_vertical_angles c' = sin_vertical_angles c" "data_queue c' = data_queue c"
    "num_slots c' = num_slots c" "dropped_packets c' = dropped_packets c"
    using c' by (auto split: if_splits)
  show "is_dense (current_sweep_xyzi c')" if "is_dense (current_sweep_xyzi c)"
    using c' that by (auto split: if_splits)
  show "list_all is_dense (emitted c')" if "list_all is_dense (emitted c)"
    using c' that o by (auto split: if_splits)
qed

lemma firing_step_succeeds:
  assumes "unat (firing_position spin (scan_counter c) i (data p ! i)) < length (cos_lookup_table c)"
    and "unat (firing_position spin (scan_counter c) i (data p ! i)) < length (sin_lookup_table c)"
  shows "\<exists>c'. firing_step E time spin direction p i c = Inr c'"
  using firing_step_cases[OF refl refl refl, where c = c and E = E and p = p and i = i and spin = spin and time = time and direction = direction] assms by auto

lemma firing_step_fails:
  assumes "firing_step E time spin direction p i c = Inl e"
  shows "e = TableReadOutOfBounds (unat (firing_position spin (scan_counter c) i (data p ! i)))
         \<and> \<not> (unat (firing_position spin (scan_counter c) i (data p ! i)) < length (cos_lookup_table c)
              \<and> unat (firing_position spin (scan_counter c) i (data p ! i)) < length (sin_lookup_table c))"
  using firing_step_cases[OF refl refl refl, where c = c and E = E and p = p and i = i and spin = spin and time = time and direction = direction] assms
  by (auto split: if_splits)

lemma for_each_invariant:
  assumes "for_each f vs s = Inr s'" "P s"
    and "\<And>v t t'. v \<in> set vs \<Longrightarrow> P t \<Longrightarrow> f v t = Inr t' \<Longrightarrow> P t'"
  shows "P s'"
  using assms
proof (induction vs arbitrary: s)
  case Nil
  then show ?case by simp
next
  case (Cons v vs)
  from Cons.prems(1) obtain t where t: "f v s = Inr t" "for_each f vs t = Inr s'"
    by (auto split: sum.splits)
  have "P t" using Cons.prems(3)[OF _ Cons.prems(2) t(1)] by simp
  from Cons.IH[OF t(2) this] Cons.prems(3) show ?case by (meson list.set_intros(2))
qed

lemma for_each_succeeds:
  assumes "P s" and "\<And>v t. v \<in> set vs \<Longrightarrow> P t \<Longrightarrow> \<exists>t'. f v t = Inr t' \<and> P t'"
  shows "\<exists>s'. for_each f vs s = Inr s' \<and> P s'"
  using assms
proof (induction vs arbitrary: s)
  case Nil
  then show ?case by simp
next
  case (Cons v vs)
  from Cons.prems(2)[of v s] Cons.prems(1) obtain t where t: "f v s = Inr t" "P t" by auto
  from Cons.IH[OF t(2)] Cons.prems(2) show ?case by (simp add: t(1))
qed

lemma for_each_fails:
  assumes "for_each f vs s = Inl e" "P s"
    and "\<And>v t t'. v \<in> set vs \<Longrightarrow> P t \<Longrightarrow> f v t = Inr t' \<Longrightarrow> P t'"
  shows "\<exists>v t. v \<in> set vs \<and> P t \<and> f v t = Inl e"
  using assms
proof (induction vs arbitrary: s)
  case Nil
  then show ?case by simp
next
  case (Cons v vs)
  show ?case
  proof (cases "f v s")
    case (Inl e')
    with Cons.prems show ?thesis by auto
  next
    case (Inr t)
    with Cons.prems have "for_each f vs t = Inl e" "P t" by auto
    from Cons.IH[OF this] Cons.prems(3) show ?thesis by (meson list.set_intros(2))
  qed
qed

lemma new_M8Client_tables_ok: "tables_ok (new_M8Client E ip prt scan0)"
  by (simp add: tables_ok_def new_M8Client_def make_cos_lookup_table_def make_sin_lookup_table_def)

lemma toPointClouds_preserves:
  assumes "toPointClouds E p c = Inr c'"
  shows "scan_counter c' = scan_counter c + 1" "cos_lookup_table c' = cos_lookup_table c"
    "sin_lookup_table c' = sin_lookup_table c" "cos_vertical_angles c' = cos_vertical_angles c"
    "sin_vertical_angles c' = sin_vertical_angles c" "data_queue c' = data_queue c"
    "num_slots c' = num_slots c" "dropped_packets c' = dropped_packets c"
    "is_dense (current_sweep_xyzi c) \<Longrightarrow> is_dense (current_sweep_xyzi c')"
    "list_all is_dense (emitted c) \<Longrightarrow> list_all is_dense (emitted c')"
proof -
  let ?c = "c\<lparr>scan_counter := scan_counter c + 1\<rparr>"
  let ?f = "firing_step E (packet_time E p) (packet_spin p) (packet_direction p) p"
  define P where "P t \<longleftrightarrow> scan_counter t = scan_counter c + 1 \<and> cos_lookup_table t = cos_lookup_table c
      \<and> sin_lookup_table t = sin_lookup_table c \<and> cos_vertical_angles t = cos_vertical_angles c
      \<and> sin_vertical_angles t = sin_vertical_angles c \<and> data_queue t = data_queue c
      \<and> num_slots t = num_slots c \<and> dropped_packets t = dropped_packets c
      \<and> (is_dense (current_sweep_xyzi c) \<longrightarrow> is_dense (current_sweep_xyzi t))
      \<and> (list_all is_dense (emitted c) \<longrightarrow> list_all is_dense (emitted t))" for t :: M8Client
  have run: "for_each ?f [0..<nat M8_FIRING_PER_PKT] ?c = Inr c'"
    using assms by (simp add: toPointClouds_def Let_def)
  have "P ?c" by (simp add: P_def)
  moreover have "P t'" if "P t" "?f v t = Inr t'" for v t t'
    using firing_step_preserves[OF that(2)] that(1) unfolding P_def by simp
  ultimately have "P c'" using for_each_invariant[OF run, of P] by blast
  then show "scan_counter c' = scan_counter c + 1" "cos_lookup_table c' = cos_lookup_table c"
    "sin_lookup_table c' = sin_lookup_table c" "cos_vertical_angles c' = cos_vertical_angles c"
    "sin_vertical_angles c' = sin_vertical_angles c" "data_queue c' = data_queue c"
    "num_slots c' = num_slots c" "dropped_packets c' = dropped_packets c"
    "is_dense (current_sweep_xyzi c) \<Longrightarrow> is_dense (current_sweep_xyzi c')"
    "list_all is_dense (emitted c) \<Longrightarrow> list_all is_dense (emitted c')"
    unfolding P_def by simp_all
qed

lemma toPointClouds_succeeds:
  assumes "tables_ok c"
    and "\<forall>i<50. unat (firing_position (packet_spin p) (scan_counter c + 1) i (data p ! i)) \<le> 10400"
  shows "\<exists>c'. toPointClouds E p c = Inr c'"
proof -
  let ?c = "c\<lparr>scan_counter := scan_counter c + 1\<rparr>"
  let ?f = "firing_step E (packet_time E p) (packet_spin p) (packet_direction p) p"
  define P where "P t \<longleftrightarrow> scan_counter t = scan_counter c + 1 \<and> cos_lookup_table t = cos_lookup_table c
      \<and> sin_lookup_table t = sin_lookup_table c" for t :: M8Client
  have "P ?c" by (simp add: P_def)
  moreover have "\<exists>t'. ?f i t = Inr t' \<and> P t'" if "i \<in> set [0..<nat M8_FIRING_PER_PKT]" "P t" for i t
  proof -
    from that(1) have "i < 50" by (simp add: M8_FIRING_PER_PKT_def)
    with assms that(2)
    have "unat (firing_position (packet_spin p) (scan_counter t) i (data p ! i)) < length (cos_lookup_table t)"
      "unat (firing_position (packet_spin p) (scan_counter t) i (data p ! i)) < length (sin_lookup_table t)"
      by (auto simp: P_def tables_ok_def M8_NUM_ROT_ANGLES_def) 
    from firing_step_succeeds[OF this] obtain t' where t': "?f i t = Inr t'" by blast
    from firing_step_preserves(1-3)[OF t'] that(2) have "P t'" by (simp add: P_def)
    with t' show ?thesis by blast
  qed
  ultimately have "\<exists>s'. for_each ?f [0..<nat M8_FIRING_PER_PKT] ?c = Inr s' \<and> P s'"
    by (rule for_each_succeeds)
  then show ?thesis by (auto simp: toPointClouds_def Let_def)
qed

lemma toPointClouds_fails:
  assumes "toPointClouds E p c = Inl e"
  shows "\<exists>i<50. e = TableReadOutOfBounds (unat (firing_position (packet_spin p) (scan_counter c + 1) i (data p ! i)))
           \<and> \<not> (unat (firing_position (packet_spin p) (scan_counter c + 1) i (data p ! i)) < length (cos_lookup_table c)
                \<and> unat (firing_position (packet_spin p) (scan_counter c + 1) i (data p ! i)) < length (sin_lookup_table c))"
proof -
  let ?c = "c\<lparr>scan_counter := scan_counter c + 1\<rparr>"
  let ?f = "firing_step E (packet_time E p) (packet_spin p) (packet_direction p) p"
  define P where "P t \<longleftrightarrow> scan_counter t = scan_counter c + 1 \<and> cos_lookup_table t = cos_lookup_table c
      \<and> sin_lookup_table t = sin_lookup_table c" for t :: M8Client
  have run: "for_each ?f [0..<nat M8_FIRING_PER_PKT] ?c = Inl e"
    using assms by (simp add: toPointClouds_def Let_def)
  have "P ?c" by (simp add: P_def)
  moreover have "P t'" if "P t" "?f v t = Inr t'" for v t t'
    using firing_step_preserves(1-3)[OF that(2)] that(1) unfolding P_def by simp
  ultimately obtain i t where it: "i \<in> set [0..<nat M8_FIRING_PER_PKT]" "P t" "?f i t = Inl e"
    using for_each_fails[OF run, of P] by blast
  from it(1) have "i < 50" by (simp add: M8_FIRING_PER_PKT_def)
  with firing_step_fails[OF it(3)] it(2) show ?thesis unfolding P_def by auto
qed

termination processM8Packets
proof (relation "measure (\<lambda>(E, c). length (items (data_queue c)))")
  show "wf (measure (\<lambda>(E, c). length (items (data_queue c))))" by simp
next
  fix E :: fp_env and c :: M8Client and x q buf c'
  assume d: "(x, q) = dequeue (data_queue c)" "x = Got buf"
    and t: "toPointClouds E (as_M8DataPacket buf) (c\<lparr>data_queue := q\<rparr>) = Inr c'"
  from d have "length (items q) < length (items (data_queue c))"
    by (auto simp: dequeue_def split: if_splits list.splits)
  with toPointClouds_preserves(6)[OF t]
  show "((E, c'), (E, c)) \<in> measure (\<lambda>(E, c). length (items (data_queue c)))" by simp
qed

section \<open>Sweep boundaries\<close>



section \<open>The stationary sensor\<close>

lemma unat_stationary_position:
  "unat (firing_position False scan i d) = unat (scan * 50 + of_nat i :: 32 word) mod 1000"
proof -
  let ?w = "scan * 50 + of_nat i :: 32 word"
  have m: "unat (?w mod 1000) = unat ?w mod 1000" by (simp add: unat_mod)
  then have "unat (?w mod 1000) < 2 ^ 16"
    using mod_less_divisor[of 1000 "unat ?w"] by simp
  then have "unat (ucast (?w mod 1000) :: 16 word) = unat (?w mod 1000)"
    by (simp add: unsigned_ucast_eq take_bit_nat_eq_self)
  then show ?thesis by (simp add: firing_position_def M8_FIRING_PER_PKT_def m)
qed

lemma stationary_position_overwritten:
  assumes "i < length (data p)"
  shows "firing_step E time False direction p i c
       = firing_step E time True direction
           (p\<lparr>data := (data p)[i := (data p ! i)\<lparr>position :=
                ucast ((scan_counter c * 50 + of_nat i) mod 1000 :: 32 word)\<rparr>]\<rparr>) i c"
proof -
  let ?d = "(data p ! i)\<lparr>position := ucast ((scan_counter c * 50 + of_nat i) mod 1000 :: 32 word)\<rparr>"
  have a: "add_sample E ?d ch sh = add_sample E (data p ! i) ch sh" for ch sh
    by (rule ext)+ (simp add: add_sample_def sample_range_def)
  have d: "data (p\<lparr>data := (data p)[i := ?d]\<rparr>) ! i = ?d" using assms by simp
  have pos: "firing_position True (scan_counter c) i ?d = firing_position False (scan_counter c) i (data p ! i)"
    by (simp add: firing_position_def M8_FIRING_PER_PKT_def)
  show ?thesis unfolding firing_step_def d Let_def pos a ..
qed

lemma stationary_succeeds:
  assumes "\<not> packet_spin p" "tables_ok c"
  shows "\<exists>c'. toPointClouds E p c = Inr c'"
proof (rule toPointClouds_succeeds[OF assms(2)])
  show "\<forall>i<50. unat (firing_position (packet_spin p) (scan_counter c + 1) i (data p ! i)) \<le> 10400"
    using assms(1) mod_less_divisor[of 1000]
    by (auto simp: unat_stationary_position intro: order.trans[OF less_imp_le])
qed

text \<open>
  C10. When the packet is not spinning, the position used for the firing \<open>i\<close> is
  \<open>(scan_counter * 50 + i) mod 1000\<close>, computed in 32-bit unsigned arithmetic from the
  scan counter (already incremented for this packet), so it is below 1000. The loop body
  behaves as on the firing whose position field has been overwritten with that value:
  azimuth and table lookup both use it. So every lookup of a packet that is not spinning
  is in bounds, and \<open>toPointClouds\<close> succeeds on it.
\<close>

theorem stationary_positions:
  "unat (firing_position False scan i d) = unat (scan * 50 + of_nat i :: 32 word) mod 1000
   \<and> unat (firing_position False scan i d) < 1000
   \<and> (i < length (data p) \<longrightarrow>
        firing_step E time False direction p i c
          = firing_step E time True direction
              (p\<lparr>data := (data p)[i := (data p ! i)\<lparr>position :=
                   ucast ((scan_counter c * 50 + of_nat i) mod 1000 :: 32 word)\<rparr>]\<rparr>) i c)
   \<and> (\<not> packet_spin p \<and> tables_ok c \<longrightarrow> (\<exists>c'. toPointClouds E p c = Inr c'))"
  using unat_stationary_position[of scan i d] stationary_position_overwritten[of i p E time direction c]
    stationary_succeeds[of p c E]
  by simp

theorem stationary_positions_witness:
  "\<not> packet_spin (packet_with (replicate 50 7))
   \<and> tables_ok (new_M8Client exact_env 0 4141 3)
   \<and> (\<exists>c'. toPointClouds exact_env (packet_with (replicate 50 7)) (new_M8Client exact_env 0 4141 3) = Inr c')
   \<and> unat (firing_position False 3 49 (firing_with 7 100)) = 199
   \<and> 49 < length (data (packet_with (replicate 50 7)))
   \<and> firing_step exact_env 0 False 1 (packet_with (replicate 50 7)) 49 (new_M8Client exact_env 0 4141 3)
      = firing_step exact_env 0 True 1
          ((packet_with (replicate 50 7))\<lparr>data := (data (packet_with (replicate 50 7)))
              [49 := (data (packet_with (replicate 50 7)) ! 49)\<lparr>position := 199\<rparr>]\<rparr>)
          49 (new_M8Client exact_env 0 4141 3)"
proof -
  have 1: "\<not> packet_spin (packet_with (replicate 50 7))"
    by (simp add: packet_spin_def position_delta_def packet_with_def M8_FIRING_PER_PKT_def)
  have 2: "tables_ok (new_M8Client exact_env 0 4141 3)" by (rule new_M8Client_tables_ok)
  have 3: "49 < length (data (packet_with (replicate 50 7)))" by (simp add: packet_with_def)
  have 4: "unat (3 * 50 + of_nat 49 :: 32 word) mod 1000 = 199" by simp
  have 5: "scan_counter (new_M8Client exact_env 0 4141 3) = 3" by (simp add: new_M8Client_def)
  have 6: "(ucast ((3 * 50 + of_nat 49) mod 1000 :: 32 word) :: 16 word) = 199" by simp
  from stationary_positions[where scan = 3 and i = 49 and d = "firing_with 7 100"
      and p = "packet_with (replicate 50 7)" and E = exact_env and time = 0 and direction = 1
      and c = "new_M8Client exact_env 0 4141 3"] 1 2 3
  show ?thesis unfolding 4 5 6 by simp
qed

section \<open>Positions read from the wire\<close>

lemma as_M8DataPacket_position:
  "i < 50 \<Longrightarrow> position (data (as_M8DataPacket bs) ! i) = le16 bs (132 * i)"
  by (simp add: as_M8DataPacket_def firing_at_def M8_FIRING_PER_PKT_def)

lemma first_firing_fails:
  assumes "\<not> unat (firing_position (packet_spin p) (scan_counter c + 1) 0 (data p ! 0)) < length (cos_lookup_table c)"
  shows "toPointClouds E p c =
           Inl (TableReadOutOfBounds (unat (firing_position (packet_spin p) (scan_counter c + 1) 0 (data p ! 0))))"
proof -
  let ?c = "c\<lparr>scan_counter := scan_counter c + 1\<rparr>"
  let ?f = "firing_step E (packet_time E p) (packet_spin p) (packet_direction p) p"
  have u: "[0..<nat M8_FIRING_PER_PKT] = 0 # [1..<50]"
    by (simp add: M8_FIRING_PER_PKT_def upt_conv_Cons)
  have "?f 0 ?c = Inl (TableReadOutOfBounds (unat (firing_position (packet_spin p) (scan_counter c + 1) 0 (data p ! 0))))"
    using firing_step_cases[OF refl refl refl, where c = ?c and E = E and p = p and i = 0
        and spin = "packet_spin p" and time = "packet_time E p" and direction = "packet_direction p"] assms
    by auto
  then show ?thesis by (simp add: toPointClouds_def Let_def u)
qed

text \<open>
  C7 fails on the code. The buffer of 6612 bytes whose first two bytes are \<open>0x20 0x4E\<close>
  and whose other bytes are 0 has the position 20000 in its first firing and 0 in its
  last: the packet is spinning, and the first firing reads entry 20000 of a table of 10401
  entries.
\<close>

theorem malformed_position_out_of_bounds:
  "length (32 # 78 # replicate 6610 (0 :: byte)) = 6612
   \<and> position (data (as_M8DataPacket (32 # 78 # replicate 6610 0)) ! 0) = 20000
   \<and> toPointClouds E (as_M8DataPacket (32 # 78 # replicate 6610 0)) (new_M8Client E ip prt scan0)
       = Inl (TableReadOutOfBounds 20000)"
proof -
  let ?p = "as_M8DataPacket (32 # 78 # replicate 6610 0)"
  let ?c = "new_M8Client E ip prt scan0"
  have p0: "position (data ?p ! 0) = 20000"
    by (simp add: as_M8DataPacket_position le16_def)
  have p49: "position (data ?p ! 49) = 0"
    by (simp add: as_M8DataPacket_position le16_def)
  have spin: "packet_spin ?p"
    by (simp add: packet_spin_def position_delta_def M8_FIRING_PER_PKT_def p0 p49)
  have pos: "firing_position (packet_spin ?p) (scan_counter ?c + 1) 0 (data ?p ! 0) = 20000"
    by (simp add: firing_position_def spin p0)
  have "length (cos_lookup_table ?c) = 10401"
    using new_M8Client_tables_ok[of E ip prt scan0] by (simp add: tables_ok_def M8_NUM_ROT_ANGLES_def)
  then have "\<not> unat (firing_position (packet_spin ?p) (scan_counter ?c + 1) 0 (data ?p ! 0)) < length (cos_lookup_table ?c)"
    unfolding pos by simp
  from first_firing_fails[OF this, of E] p0 show ?thesis unfolding pos by simp
qed

section \<open>Ranges are never NaN\<close>

lemma processM8Packets_dense:
  assumes "processM8Packets E c = Inr c'"
  shows "(is_dense (current_sweep_xyzi c) \<longrightarrow> is_dense (current_sweep_xyzi c'))
         \<and> (list_all is_dense (emitted c) \<longrightarrow> list_all is_dense (emitted c'))"
  using assms
proof (induction E c rule: processM8Packets.induct)
  case (1 E c)
  show ?case
  proof (cases "dequeue (data_queue c)")
    case (Pair r q)
    show ?thesis
    proof (cases r)
      case Ended
      with Pair "1.prems" show ?thesis by (subst (asm) processM8Packets.simps) auto
    next
      case Waiting
      with Pair "1.prems" show ?thesis by (subst (asm) processM8Packets.simps) auto
    next
      case (Got buf)
      with Pair "1.prems" obtain t where t: "toPointClouds E (as_M8DataPacket buf) (c\<lparr>data_queue := q\<rparr>) = Inr t"
        "processM8Packets E t = Inr c'"
        by (subst (asm) processM8Packets.simps) (auto split: sum.splits)
      from "1.IH"[OF Pair[symmetric] Got t(1) t(2)] toPointClouds_preserves(9,10)[OF t(1)]
      show ?thesis by simp
    qed
  qed
qed

lemma processM8Packets_stationary:
  assumes "tables_ok c" "\<forall>buf \<in> set (items (data_queue c)). \<not> packet_spin (as_M8DataPacket buf)"
  shows "\<exists>c'. processM8Packets E c = Inr c'"
  using assms
proof (induction E c rule: processM8Packets.induct)
  case (1 E c)
  show ?case
  proof (cases "dequeue (data_queue c)")
    case (Pair r q)
    show ?thesis
    proof (cases r)
      case Ended
      with Pair show ?thesis by (subst processM8Packets.simps) auto
    next
      case Waiting
      with Pair show ?thesis by (subst processM8Packets.simps) auto
    next
      case (Got buf)
      from Pair Got have q: "buf \<in> set (items (data_queue c))" "set (items q) \<subseteq> set (items (data_queue c))"
        by (auto simp: dequeue_def split: if_splits list.splits)
      have "tables_ok (c\<lparr>data_queue := q\<rparr>)" using "1.prems"(1) by (simp add: tables_ok_def)
      from stationary_succeeds[OF _ this, of "as_M8DataPacket buf" E] q(1) "1.prems"(2)
      obtain t where t: "toPointClouds E (as_M8DataPacket buf) (c\<lparr>data_queue := q\<rparr>) = Inr t"
        by blast
      from toPointClouds_preserves(2,3,6)[OF t] "1.prems" q(2)
      have "tables_ok t" "\<forall>buf \<in> set (items (data_queue t)). \<not> packet_spin (as_M8DataPacket buf)"
        by (auto simp: tables_ok_def)
      from "1.IH"[OF Pair[symmetric] Got t this] obtain c' where "processM8Packets E t = Inr c'" by blast
      with Pair Got t show ?thesis by (subst processM8Packets.simps) auto
    qed
  qed
qed

text \<open>
  C9. The range of a sample is a 32-bit unsigned distance, converted to \<open>double\<close>,
  multiplied by the \<open>double\<close> 0.01 and stored as \<open>float\<close>: it is never a NaN. So
  \<open>add_sample\<close> always appends the point computed by the formula branch of \<open>computeXYZ\<close>
  and never clears the dense flag. Processing a packet, or all the packets of the queue,
  keeps the current sweep dense and emits only dense sweeps.
\<close>

theorem range_never_NaN:
  "sample_range E d j \<noteq> NaN
   \<and> add_sample E d cos_h sin_h j c =
       c\<lparr>current_sweep_xyzi :=
           push_back
             (new_PointXYZI
                \<lparr>pt_y := to_float E (fp_mul (rnd_double E)
                           (fp_sub (rnd_double E)
                              (fp_mul (rnd_double E) (sample_range E d j) (cos_vertical_angles c ! j))
                              (sin_vertical_angles c ! j)) sin_h),
                 pt_x := to_float E (fp_mul (rnd_double E)
                           (fp_sub (rnd_double E)
                              (fp_mul (rnd_double E) (sample_range E d j) (cos_vertical_angles c ! j))
                              (sin_vertical_angles c ! j)) cos_h),
                 pt_z := to_float E (fp_add (rnd_double E)
                           (fp_mul (rnd_double E) (sample_range E d j) (sin_vertical_angles c ! j))
                           (cos_vertical_angles c ! j)),
                 pt_intensity := fp_of_int (uint (returns_intensities d ! 0 ! j))\<rparr>)
             (current_sweep_xyzi c)\<rparr>
   \<and> (toPointClouds E p c = Inr c' \<longrightarrow>
        (is_dense (current_sweep_xyzi c) \<longrightarrow> is_dense (current_sweep_xyzi c'))
        \<and> (list_all is_dense (emitted c) \<longrightarrow> list_all is_dense (emitted c')))
   \<and> (processM8Packets E c = Inr c'' \<longrightarrow>
        (is_dense (current_sweep_xyzi c) \<longrightarrow> is_dense (current_sweep_xyzi c''))
        \<and> (list_all is_dense (emitted c) \<longrightarrow> list_all is_dense (emitted c'')))"
proof -
  have "add_sample E d cos_h sin_h j c =
       c\<lparr>current_sweep_xyzi := push_back (sample_point E c d cos_h sin_h j) (current_sweep_xyzi c)\<rparr>"
    by (rule add_sample_eq)
  moreover have "sample_point E c d cos_h sin_h j = new_PointXYZI
                \<lparr>pt_y := to_float E (fp_mul (rnd_double E)
                           (fp_sub (rnd_double E)
                              (fp_mul (rnd_double E) (sample_range E d j) (cos_vertical_angles c ! j))
                              (sin_vertical_angles c ! j)) sin_h),
                 pt_x := to_float E (fp_mul (rnd_double E)
                           (fp_sub (rnd_double E)
                              (fp_mul (rnd_double E) (sample_range E d j) (cos_vertical_angles c ! j))
                              (sin_vertical_angles c ! j)) cos_h),
                 pt_z := to_float E (fp_add (rnd_double E)
                           (fp_mul (rnd_double E) (sample_range E d j) (sin_vertical_angles c ! j))
                           (cos_vertical_angles c ! j)),
                 pt_intensity := fp_of_int (uint (returns_intensities d ! 0 ! j))\<rparr>"
    by (simp add: sample_point_def computeXYZ_def fp_isnan_def sample_range_not_NaN Let_def)
  ultimately show ?thesis
    using sample_range_not_NaN[of E d j] toPointClouds_preserves(9,10)[of E p c c']
      processM8Packets_dense[of E c c'']
    by simp
qed

theorem range_never_NaN_witness:
  "is_dense (current_sweep_xyzi (enqueueM8Packet (replicate 6612 0) 6612 (new_M8Client exact_env 0 4141 0)))
   \<and> list_all is_dense (emitted (enqueueM8Packet (replicate 6612 0) 6612 (new_M8Client exact_env 0 4141 0)))
   \<and> (\<exists>c'. toPointClouds exact_env (packet_with (replicate 50 7))
               (enqueueM8Packet (replicate 6612 0) 6612 (new_M8Client exact_env 0 4141 0)) = Inr c'
          \<and> is_dense (current_sweep_xyzi c') \<and> list_all is_dense (emitted c'))
   \<and> (\<exists>c''. processM8Packets exact_env
                (enqueueM8Packet (replicate 6612 0) 6612 (new_M8Client exact_env 0 4141 0)) = Inr c''
          \<and> is_dense (current_sweep_xyzi c'') \<and> list_all is_dense (emitted c''))"
proof -
  let ?new = "new_M8Client exact_env 0 4141 0"
  let ?c = "enqueueM8Packet (replicate 6612 0) 6612 ?new"
  let ?p = "packet_with (replicate 50 7)"
  have e: "?c = ?new\<lparr>data_queue := (data_queue ?new)\<lparr>items := items (data_queue ?new) @ [replicate 6612 0]\<rparr>\<rparr>"
    by (rule enqueue_accepted) (simp_all add: new_M8Client_def new_SynchronizedQueue_def)
  have c: "is_dense (current_sweep_xyzi ?c)" "list_all is_dense (emitted ?c)" "tables_ok ?c"
    "items (data_queue ?c) = [replicate 6612 0]"
    unfolding e using new_M8Client_tables_ok[of exact_env 0 4141 0]
    by (simp_all add: tables_ok_def new_M8Client_def new_PointCloud_def new_SynchronizedQueue_def)
  have s: "\<not> packet_spin ?p"
    by (simp add: packet_spin_def position_delta_def packet_with_def M8_FIRING_PER_PKT_def)
  have "position (data (as_M8DataPacket (replicate 6612 0)) ! 0) = 0"
    "position (data (as_M8DataPacket (replicate 6612 0)) ! 49) = 0"
    by (simp_all add: as_M8DataPacket_position le16_def)
  then have "\<not> packet_spin (as_M8DataPacket (replicate 6612 0))"
    by (simp add: packet_spin_def position_delta_def M8_FIRING_PER_PKT_def)
  then have q: "\<forall>buf \<in> set (items (data_queue ?c)). \<not> packet_spin (as_M8DataPacket buf)"
    unfolding c(4) by simp
  from stationary_succeeds[OF s c(3), of exact_env] obtain c' where c': "toPointClouds exact_env ?p ?c = Inr c'"
    by blast
  from processM8Packets_stationary[OF c(3) q, of exact_env] obtain c'' where c'': "processM8Packets exact_env ?c = Inr c''"
    by blast
  from range_never_NaN[where E = exact_env and p = ?p and c = ?c and c' = c' and c'' = c''] c' c'' c(1,2)
  show ?thesis by blast
qed

end
